theory Spec2Isabelle
  imports Main
begin

section \<open>MAID SMART health monitor: a shallow embedding of \<open>maid-smart-mon.py\<close>\<close>

text \<open>
  The monitor polls SMART attributes of mounted disks without waking idle ones. The
  embedding follows the methods of the class \<open>MAIDSmartMonitor\<close> one by one. Everything
  the methods obtain from outside the program (the mount table, the output of
  \<open>smartctl\<close>, the JSON parser, the clock, the outcome of a database transaction) is read
  from an environment; everything they change (the three tables, the log, the list of
  processes started) is a field of an explicit state that each method takes and returns.

  Strings are \<open>string\<close>, that is lists of 8-bit characters. Among those characters the
  decimal digits of Python's \<open>\d\<close> are exactly \<open>0\<close> to \<open>9\<close>. Floating-point numbers are
  not part of the embedding: the values of the JSON document are \<open>None\<close>, booleans,
  integers, strings, lists and objects.
\<close>

subsection \<open>Strings\<close>

text \<open>\<open>s.startswith(p)\<close>.\<close>

definition startswith :: "string \<Rightarrow> string \<Rightarrow> bool" where
  "startswith s p = (take (length p) s = p)"

text \<open>\<open>sub in s\<close> for two strings: \<open>sub\<close> occurs in \<open>s\<close> as a contiguous block.\<close>

fun str_contains :: "string \<Rightarrow> string \<Rightarrow> bool" where
  "str_contains [] sub = (sub = [])"
| "str_contains (c # cs) sub = (startswith (c # cs) sub \<or> str_contains cs sub)"

definition is_digit :: "char \<Rightarrow> bool" where
  "is_digit c = (c \<in> set ''0123456789'')"

definition strip_trailing_digits :: "string \<Rightarrow> string" where
  "strip_trailing_digits s = rev (dropWhile is_digit (rev s))"

text \<open>
  \<open>re.sub(r'\d+$', '', s)\<close>. Without the MULTILINE flag \<open>$\<close> matches at the end of the
  string and also just before a newline that is the last character, so a run of digits in
  front of a final newline is removed and the newline is kept.
\<close>

definition re_sub_trailing_digits :: "string \<Rightarrow> string" where
  "re_sub_trailing_digits s =
     (if s \<noteq> [] \<and> last s = CHR 0x0A \<and> butlast s \<noteq> [] \<and> is_digit (last (butlast s))
      then strip_trailing_digits (butlast s) @ [CHR 0x0A]
      else strip_trailing_digits s)"

subsection \<open>Device discovery\<close>

text \<open>
  The loop of \<open>get_mounted_drives\<close> over the devices of \<open>psutil.disk_partitions()\<close>; the
  first argument is the list \<open>mounted_drives\<close> built so far.
\<close>

fun mounted_drives_loop :: "string list \<Rightarrow> string list \<Rightarrow> string list" where
  "mounted_drives_loop mounted_drives [] = mounted_drives"
| "mounted_drives_loop mounted_drives (part # parts) =
     (let device = re_sub_trailing_digits part in
      if device \<notin> set mounted_drives \<and> startswith device ''/dev/sd''
      then mounted_drives_loop (mounted_drives @ [device]) parts
      else mounted_drives_loop mounted_drives parts)"

definition get_mounted_drives :: "string list \<Rightarrow> string list" where
  "get_mounted_drives parts = mounted_drives_loop [] parts"

text \<open>
  The discovery contract in the words of the specification: every partition's device with
  its trailing partition number stripped, duplicates removed, the first occurrence kept.
\<close>

fun dedup_first :: "'a list \<Rightarrow> 'a list \<Rightarrow> 'a list" where
  "dedup_first seen [] = []"
| "dedup_first seen (x # xs) =
     (if x \<in> set seen then dedup_first seen xs else x # dedup_first (x # seen) xs)"

definition list_active_devices_spec :: "string list \<Rightarrow> string list" where
  "list_active_devices_spec parts = dedup_first [] (map re_sub_trailing_digits parts)"

subsection \<open>Python values and exceptions\<close>

text \<open>
  The values \<open>json.loads\<close> can return. An object is the list of its members in document
  order; a key is looked up with \<open>map_of\<close>.
\<close>

datatype pyval =
    PNone
  | PBool bool
  | PInt int
  | PStr string
  | PList "pyval list"
  | PDict "(string \<times> pyval) list"

text \<open>
  The exceptions the methods can meet; all of them are subclasses of \<open>Exception\<close>.
  \<open>SqliteError\<close> is any \<open>sqlite3.Error\<close>, \<open>OtherError\<close> any other exception raised
  by a library call (for instance \<open>FileNotFoundError\<close> when \<open>smartctl\<close> is missing).
\<close>

datatype exn =
    TimeoutExpired
  | JSONDecodeError
  | TypeError
  | AttributeError
  | IndexError
  | SqliteError
  | OtherError

text \<open>\<open>d.get(key, default)\<close> on the members of a dictionary.\<close>

definition dict_get :: "(string \<times> pyval) list \<Rightarrow> string \<Rightarrow> pyval \<Rightarrow> pyval" where
  "dict_get kvs key dflt = (case map_of kvs key of Some v \<Rightarrow> v | None \<Rightarrow> dflt)"

text \<open>\<open>v.get(key, default)\<close>: only a dictionary has the method.\<close>

fun py_get :: "pyval \<Rightarrow> string \<Rightarrow> pyval \<Rightarrow> exn + pyval" where
  "py_get (PDict kvs) key dflt = Inr (dict_get kvs key dflt)"
| "py_get _ key dflt = Inl AttributeError"

text \<open>\<open>key in v\<close> for a string \<open>key\<close>.\<close>

fun py_contains :: "pyval \<Rightarrow> string \<Rightarrow> exn + bool" where
  "py_contains (PDict kvs) key = Inr (map_of kvs key \<noteq> None)"
| "py_contains (PList xs) key = Inr (PStr key \<in> set xs)"
| "py_contains (PStr s) key = Inr (str_contains s key)"
| "py_contains _ key = Inl TypeError"

text \<open>\<open>for x in v\<close>: the elements of a list, the keys of a dictionary, the characters of a string.\<close>

fun py_iter :: "pyval \<Rightarrow> exn + pyval list" where
  "py_iter (PList xs) = Inr xs"
| "py_iter (PDict kvs) = Inr (map (\<lambda>kv. PStr (fst kv)) kvs)"
| "py_iter (PStr s) = Inr (map (\<lambda>c. PStr [c]) s)"
| "py_iter _ = Inl TypeError"

text \<open>The truth value of \<open>if v:\<close>.\<close>

fun truthy :: "pyval \<Rightarrow> bool" where
  "truthy PNone = False"
| "truthy (PBool b) = b"
| "truthy (PInt i) = (i \<noteq> 0)"
| "truthy (PStr s) = (s \<noteq> [])"
| "truthy (PList xs) = (xs \<noteq> [])"
| "truthy (PDict kvs) = (kvs \<noteq> [])"

text \<open>The integer a value is equal to in Python: \<open>True == 1\<close> and \<open>False == 0\<close>.\<close>

fun as_int :: "pyval \<Rightarrow> int option" where
  "as_int (PBool b) = Some (if b then 1 else 0)"
| "as_int (PInt i) = Some i"
| "as_int _ = None"

text \<open>\<open>v in ks\<close> for a list \<open>ks\<close> of integers: \<open>v\<close> is equal to one of them.\<close>

definition in_int_list :: "pyval \<Rightarrow> int list \<Rightarrow> bool" where
  "in_int_list v ks = (case as_int v of Some i \<Rightarrow> i \<in> set ks | None \<Rightarrow> False)"

text \<open>
  \<open>a > b\<close> and \<open>a <= b\<close> where at least one side is a number (the only use the
  evaluator makes of them): a comparison of the values when both sides are numbers, a
  \<open>TypeError\<close> otherwise.
\<close>

definition py_gt :: "pyval \<Rightarrow> pyval \<Rightarrow> exn + bool" where
  "py_gt a b = (case (as_int a, as_int b) of
                  (Some i, Some j) \<Rightarrow> Inr (j < i)
                | _ \<Rightarrow> Inl TypeError)"

definition py_le :: "pyval \<Rightarrow> pyval \<Rightarrow> exn + bool" where
  "py_le a b = (case (as_int a, as_int b) of
                  (Some i, Some j) \<Rightarrow> Inr (i \<le> j)
                | _ \<Rightarrow> Inl TypeError)"

subsection \<open>The attribute catalog\<close>

definition TARGET_ATTRIBUTES :: "(int \<times> string) list" where
  "TARGET_ATTRIBUTES =
    [(1, ''Raw_Read_Error_Rate''),
     (3, ''Spin_Up_Time''),
     (4, ''Start_Stop_Count''),
     (5, ''Reallocated_Sector_Ct''),
     (7, ''Seek_Error_Rate''),
     (9, ''Power_On_Hours''),
     (12, ''Power_Cycle_Count''),
     (187, ''Reported_Uncorrectable_Errors''),
     (188, ''Command_Timeout''),
     (190, ''Airflow_Temperature_Cel''),
     (191, ''G_Sense_Error_Rate''),
     (192, ''Power_Off_Retract_Count''),
     (193, ''Load_Cycle_Count''),
     (194, ''Temperature_Celsius''),
     (196, ''Reallocation_Event_Count''),
     (197, ''Current_Pending_Sector''),
     (198, ''Offline_Uncorrectable''),
     (199, ''UDMA_CRC_Error_Count''),
     (222, ''Loaded_Hours''),
     (240, ''Head_Flying_Hours''),
     (241, ''Total_LBAs_Written''),
     (242, ''Total_LBAs_Read'')]"

text \<open>
  The entry of \<open>TARGET_ATTRIBUTES\<close> under a key, by hash and equality: \<open>Some name\<close> when
  \<open>key in TARGET_ATTRIBUTES\<close> (and then \<open>TARGET_ATTRIBUTES[key]\<close> is \<open>name\<close>), \<open>None\<close>
  when it is not, and a \<open>TypeError\<close> for an unhashable key (a list or a dictionary).
\<close>

fun target_lookup :: "pyval \<Rightarrow> exn + string option" where
  "target_lookup (PList xs) = Inl TypeError"
| "target_lookup (PDict kvs) = Inl TypeError"
| "target_lookup v = Inr (case as_int v of Some i \<Rightarrow> map_of TARGET_ATTRIBUTES i | None \<Rightarrow> None)"

subsection \<open>Readings, rows and tables\<close>

text \<open>
  The dictionary \<open>parse_smart_attributes\<close> builds for one attribute. The four values are
  passed through from the JSON document as they are.
\<close>

record reading =
  device :: string
  attribute_id :: pyval
  attribute_name :: string
  raw_value :: pyval
  normalized_value :: pyval
  threshold :: pyval
  worst_value :: pyval
  flags :: string

text \<open>
  A row of \<open>smart_data\<close>: the reading with the identity of the device and the time of the
  write. The \<open>id\<close> column is the position in the table.
\<close>

record smart_row = reading +
  serial_number :: "string option"
  model :: "string option"
  timestamp :: nat

text \<open>A row of \<open>device_status\<close>; the primary key \<open>device\<close> is the key of the table.\<close>

record status_row =
  ds_serial_number :: "string option"
  ds_model :: "string option"
  last_seen :: "nat option"
  is_mounted :: "bool option"
  mount_point :: "string option"
  smart_enabled :: "bool option"
  last_smart_check :: "nat option"
  spin_up_count :: "int option"

text \<open>A row of \<open>health_alerts\<close>.\<close>

record alert_row =
  alert_device :: string
  alert_attribute_name :: string
  alert_type :: string
  message :: string
  alert_timestamp :: nat
  resolved :: bool

subsection \<open>The environment and the state\<close>

text \<open>
  A process started by \<open>subprocess.run(argv, capture_output=True, text=True, timeout=t)\<close>
  either completes, with its return code, standard output and standard error, or the call
  raises.
\<close>

datatype proc_outcome =
    Completed int string string
  | Raised exn

type_synonym command = "string list \<times> nat"

text \<open>
  What the program reads from outside. Every interaction with the outside takes one
  tick of a counter kept in the state, and the environment answers by the tick, so that
  the same command can have different outcomes at different times, and any transaction
  can fail: \<open>disk_partitions\<close> gives the devices of \<open>psutil.disk_partitions()\<close>,
  \<open>subprocess_run\<close> the outcome of a process, \<open>datetime_now\<close> the clock, and
  \<open>sqlite_fails\<close> tells whether the database transaction beginning at that tick raises
  (it is then rolled back). \<open>json_loads\<close> and \<open>py_str\<close> are the library functions
  \<open>json.loads\<close> and \<open>str\<close>.
\<close>

record env =
  disk_partitions :: "nat \<Rightarrow> string list"
  subprocess_run :: "nat \<Rightarrow> string list \<Rightarrow> nat \<Rightarrow> proc_outcome"
  datetime_now :: "nat \<Rightarrow> nat"
  sqlite_fails :: "nat \<Rightarrow> bool"
  json_loads :: "string \<Rightarrow> exn + pyval"
  py_str :: "pyval \<Rightarrow> string"

text \<open>The calls of \<open>logger\<close>, one constructor for each message of the source.\<close>

datatype log_event =
    DatabaseInitialized
  | FoundMountedDrives nat "string list"
  | SmartSupportCheckFailed string string
  | TimeoutCheckingSmartSupport string
  | ErrorCheckingSmartSupport string exn
  | ErrorGettingDeviceInfo string exn
  | StandbySkipping string
  | SmartDataCollectionFailed string string
  | FailedToParseSmartJson string exn
  | TimeoutCollectingSmartData string
  | ErrorCollectingSmartData string exn
  | StoredSmartAttributes nat string
  | HealthAlert string string string
  | StartingCycle
  | ProcessingDevice string
  | SmartNotSupported string
  | NoTargetAttributes string
  | NoSmartDataCollected string
  | ErrorProcessingDevice string exn
  | CycleCompleted

text \<open>
  What the program changes: the tick, the processes started so far with their outcomes
  (oldest first), the log (oldest first), and the three tables of the database.
\<close>

record world =
  tick :: nat
  trace :: "(command \<times> proc_outcome) list"
  logs :: "log_event list"
  smart_data :: "smart_row list"
  device_status :: "string \<rightharpoonup> status_row"
  health_alerts :: "alert_row list"

definition logger :: "world \<Rightarrow> log_event \<Rightarrow> world" where
  "logger w ev = w\<lparr>logs := logs w @ [ev]\<rparr>"

definition run_process :: "env \<Rightarrow> world \<Rightarrow> string list \<Rightarrow> nat \<Rightarrow> world \<times> proc_outcome" where
  "run_process e w argv t =
     (let out = subprocess_run e (tick w) argv t
      in (w\<lparr>tick := Suc (tick w), trace := trace w @ [((argv, t), out)]\<rparr>, out))"

definition now :: "env \<Rightarrow> world \<Rightarrow> world \<times> nat" where
  "now e w = (w\<lparr>tick := Suc (tick w)\<rparr>, datetime_now e (tick w))"

text \<open>
  \<open>with sqlite3.connect(self.db_path) as conn: ... conn.commit()\<close>: the changes \<open>f\<close> of
  the block are made together, or an \<open>sqlite3.Error\<close> leaves the tables as they were.
\<close>

definition transaction :: "env \<Rightarrow> world \<Rightarrow> (world \<Rightarrow> world) \<Rightarrow> world \<times> (exn + unit)" where
  "transaction e w f =
     (if sqlite_fails e (tick w) then (w\<lparr>tick := Suc (tick w)\<rparr>, Inl SqliteError)
      else (f (w\<lparr>tick := Suc (tick w)\<rparr>), Inr ()))"

text \<open>The database file before the first run: \<open>init_database\<close> creates three empty tables.\<close>

definition fresh_world :: world where
  "fresh_world = \<lparr>tick = 0, trace = [], logs = [], smart_data = [],
                   device_status = Map.empty, health_alerts = []\<rparr>"

text \<open>
  \<open>init_database\<close>: \<open>CREATE TABLE IF NOT EXISTS\<close> leaves the rows of existing tables as
  they are.
\<close>

definition init_database :: "env \<Rightarrow> world \<Rightarrow> world \<times> (exn + unit)" where
  "init_database e w = transaction e w (\<lambda>w'. logger w' DatabaseInitialized)"

subsection \<open>Identity and capability probes\<close>

text \<open>\<open>s.split('\n')\<close>, and more generally the split of a string at one character.\<close>

fun split_char :: "char \<Rightarrow> string \<Rightarrow> string list" where
  "split_char sep [] = [[]]"
| "split_char sep (c # cs) =
     (if c = sep then [] # split_char sep cs
      else (case split_char sep cs of
              [] \<Rightarrow> [[c]]
            | l # ls \<Rightarrow> (c # l) # ls))"

text \<open>
  \<open>s.split(sep)[1]\<close> for a non-empty separator: the text between the first occurrence of
  \<open>sep\<close> and the next one; an \<open>IndexError\<close> when \<open>sep\<close> does not occur.
\<close>

fun after_first :: "string \<Rightarrow> string \<Rightarrow> string option" where
  "after_first sep [] = None"
| "after_first sep (c # cs) =
     (if startswith (c # cs) sep then Some (drop (length sep) (c # cs))
      else after_first sep cs)"

fun before_first :: "string \<Rightarrow> string \<Rightarrow> string" where
  "before_first sep [] = []"
| "before_first sep (c # cs) =
     (if startswith (c # cs) sep then [] else c # before_first sep cs)"

definition split_second :: "string \<Rightarrow> string \<Rightarrow> exn + string" where
  "split_second s sep =
     (case after_first sep s of
        None \<Rightarrow> Inl IndexError
      | Some rest \<Rightarrow> Inr (before_first sep rest))"

text \<open>\<open>s.strip()\<close>; the characters below 256 for which \<open>isspace()\<close> holds.\<close>

definition is_space :: "char \<Rightarrow> bool" where
  "is_space c = (of_char c \<in> set [9, 10, 11, 12, 13, 28, 29, 30, 31, 32, 133, 160 :: nat])"

definition strip :: "string \<Rightarrow> string" where
  "strip s = rev (dropWhile is_space (rev (dropWhile is_space s)))"

definition smartctl_info :: "string \<Rightarrow> string list" where
  "smartctl_info dev = [''smartctl'', ''--nocheck=standby'', ''-i'', dev]"

text \<open>\<open>check_smart_support\<close>: every exception is caught, the result is a boolean.\<close>

definition check_smart_support :: "env \<Rightarrow> world \<Rightarrow> string \<Rightarrow> world \<times> bool" where
  "check_smart_support e w dev =
     (case run_process e w (smartctl_info dev) 30 of
        (w1, Completed returncode out err) \<Rightarrow>
          if returncode = 0 then (w1, str_contains out ''SMART support is: Enabled'')
          else (logger w1 (SmartSupportCheckFailed dev err), False)
      | (w1, Raised TimeoutExpired) \<Rightarrow> (logger w1 (TimeoutCheckingSmartSupport dev), False)
      | (w1, Raised ex) \<Rightarrow> (logger w1 (ErrorCheckingSmartSupport dev ex), False))"

text \<open>
  The loop of \<open>get_device_info\<close> over the lines of the output; the first two arguments are
  \<open>serial\<close> and \<open>model\<close> as found so far.
\<close>

fun device_info_loop ::
  "string option \<Rightarrow> string option \<Rightarrow> string list \<Rightarrow> exn + (string option \<times> string option)" where
  "device_info_loop serial mdl [] = Inr (serial, mdl)"
| "device_info_loop serial mdl (line # lines) =
     (if str_contains line ''Serial Number:'' then
        (case split_second line ''Serial Number:'' of
           Inl ex \<Rightarrow> Inl ex
         | Inr s \<Rightarrow> device_info_loop (Some (strip s)) mdl lines)
      else if str_contains line ''Device Model:'' \<or> str_contains line ''Model Number:'' then
        (case split_second line '':'' of
           Inl ex \<Rightarrow> Inl ex
         | Inr s \<Rightarrow> device_info_loop serial (Some (strip s)) lines)
      else device_info_loop serial mdl lines)"

text \<open>
  \<open>get_device_info\<close>: serial number and model, or \<open>(None, None)\<close> when the process does
  not return 0 or anything raises.
\<close>

definition get_device_info ::
  "env \<Rightarrow> world \<Rightarrow> string \<Rightarrow> world \<times> (string option \<times> string option)" where
  "get_device_info e w dev =
     (case run_process e w (smartctl_info dev) 30 of
        (w1, Completed returncode out err) \<Rightarrow>
          if returncode = 0 then
            (case device_info_loop None None (split_char (CHR 0x0A) out) of
               Inr (serial, mdl) \<Rightarrow> (w1, (serial, mdl))
             | Inl ex \<Rightarrow> (logger w1 (ErrorGettingDeviceInfo dev ex), (None, None)))
          else (w1, (None, None))
      | (w1, Raised ex) \<Rightarrow> (logger w1 (ErrorGettingDeviceInfo dev ex), (None, None)))"

subsection \<open>The attribute collector\<close>

definition smartctl_standby :: "string \<Rightarrow> string list" where
  "smartctl_standby dev = [''smartctl'', ''--nocheck=standby'', ''-n'', ''standby'', dev]"

definition smartctl_attributes :: "string \<Rightarrow> string list" where
  "smartctl_attributes dev = [''smartctl'', ''-A'', ''--json'', dev]"

text \<open>The three \<open>except\<close> clauses of \<open>collect_smart_data\<close>, in the order of the source.\<close>

fun collect_except :: "world \<Rightarrow> string \<Rightarrow> exn \<Rightarrow> world" where
  "collect_except w dev JSONDecodeError = logger w (FailedToParseSmartJson dev JSONDecodeError)"
| "collect_except w dev TimeoutExpired = logger w (TimeoutCollectingSmartData dev)"
| "collect_except w dev ex = logger w (ErrorCollectingSmartData dev ex)"

text \<open>
  \<open>collect_smart_data\<close>: the standby probe, then the full attribute query unless the
  output of the probe contains \<open>STANDBY\<close>. The empty dictionary is \<open>PDict []\<close>.
\<close>

definition collect_smart_data :: "env \<Rightarrow> world \<Rightarrow> string \<Rightarrow> world \<times> pyval" where
  "collect_smart_data e w dev =
     (case run_process e w (smartctl_standby dev) 10 of
        (w1, Raised ex) \<Rightarrow> (collect_except w1 dev ex, PDict [])
      | (w1, Completed returncode out err) \<Rightarrow>
          if str_contains out ''STANDBY'' then (logger w1 (StandbySkipping dev), PDict [])
          else
            (case run_process e w1 (smartctl_attributes dev) 60 of
               (w2, Raised ex) \<Rightarrow> (collect_except w2 dev ex, PDict [])
             | (w2, Completed returncode2 out2 err2) \<Rightarrow>
                 if returncode2 = 0 then
                   (case json_loads e out2 of
                      Inr data \<Rightarrow> (w2, data)
                    | Inl ex \<Rightarrow> (collect_except w2 dev ex, PDict []))
                 else (logger w2 (SmartDataCollectionFailed dev err2), PDict [])))"

text \<open>
  The body of the loop of \<open>parse_smart_attributes\<close> for one record of the table: the
  reading to append, or \<open>None\<close> when the id is not a key of the catalog.
\<close>

fun parse_attr :: "env \<Rightarrow> string \<Rightarrow> pyval \<Rightarrow> exn + reading option" where
  "parse_attr e dev (PDict attr) =
     (let attr_id = dict_get attr ''id'' PNone in
      case target_lookup attr_id of
        Inl ex \<Rightarrow> Inl ex
      | Inr None \<Rightarrow> Inr None
      | Inr (Some name) \<Rightarrow>
          (case py_get (dict_get attr ''raw'' (PDict [])) ''value'' (PInt 0) of
             Inl ex \<Rightarrow> Inl ex
           | Inr raw \<Rightarrow>
               Inr (Some \<lparr>device = dev,
                          attribute_id = attr_id,
                          attribute_name = name,
                          raw_value = raw,
                          normalized_value = dict_get attr ''value'' (PInt 0),
                          threshold = dict_get attr ''thresh'' (PInt 0),
                          worst_value = dict_get attr ''worst'' (PInt 0),
                          flags = py_str e (dict_get attr ''flags'' (PDict []))\<rparr>)))"
| "parse_attr e dev v = Inl AttributeError"

fun parse_table_loop :: "env \<Rightarrow> string \<Rightarrow> reading list \<Rightarrow> pyval list \<Rightarrow> exn + reading list" where
  "parse_table_loop e dev attributes [] = Inr attributes"
| "parse_table_loop e dev attributes (attr # table) =
     (case parse_attr e dev attr of
        Inl ex \<Rightarrow> Inl ex
      | Inr None \<Rightarrow> parse_table_loop e dev attributes table
      | Inr (Some r) \<Rightarrow> parse_table_loop e dev (attributes @ [r]) table)"

text \<open>
  \<open>parse_smart_attributes\<close>. The subscript \<open>smart_data['ata_smart_attributes']\<close> is
  defined for a dictionary only; a list or a string that contains the key raises
  \<open>TypeError\<close> there.
\<close>

definition parse_smart_attributes :: "env \<Rightarrow> pyval \<Rightarrow> string \<Rightarrow> exn + reading list" where
  "parse_smart_attributes e smart dev =
     (case py_contains smart ''ata_smart_attributes'' of
        Inl ex \<Rightarrow> Inl ex
      | Inr False \<Rightarrow> Inr []
      | Inr True \<Rightarrow>
          (case smart of
             PDict kvs \<Rightarrow>
               (case py_get (dict_get kvs ''ata_smart_attributes'' PNone) ''table'' (PList []) of
                  Inl ex \<Rightarrow> Inl ex
                | Inr table \<Rightarrow>
                    (case py_iter table of
                       Inl ex \<Rightarrow> Inl ex
                     | Inr attrs \<Rightarrow> parse_table_loop e dev [] attrs))
           | _ \<Rightarrow> Inl TypeError))"

subsection \<open>Persistence\<close>

text \<open>
  The three writing methods take the time first and then make their changes in one
  transaction.

  \<open>INSERT OR REPLACE INTO smart_data\<close>: a row with the same device, timestamp and
  attribute id (the \<open>UNIQUE\<close> constraint) is replaced. SQLite stores \<open>True\<close> as 1, so
  ids are compared as integers where they are numbers.
\<close>

definition smart_key :: "smart_row \<Rightarrow> string \<times> nat \<times> int option \<times> pyval" where
  "smart_key r =
     (device r, timestamp r,
      as_int (attribute_id r),
      (case as_int (attribute_id r) of Some i \<Rightarrow> PNone | None \<Rightarrow> attribute_id r))"

definition insert_or_replace :: "smart_row \<Rightarrow> smart_row list \<Rightarrow> smart_row list" where
  "insert_or_replace row rows = filter (\<lambda>r. smart_key r \<noteq> smart_key row) rows @ [row]"

definition smart_row_of :: "reading \<Rightarrow> string option \<Rightarrow> string option \<Rightarrow> nat \<Rightarrow> smart_row" where
  "smart_row_of attr serial mdl ts =
     \<lparr>device = device attr,
      attribute_id = attribute_id attr,
      attribute_name = attribute_name attr,
      raw_value = raw_value attr,
      normalized_value = normalized_value attr,
      threshold = threshold attr,
      worst_value = worst_value attr,
      flags = flags attr,
      serial_number = serial,
      model = mdl,
      timestamp = ts\<rparr>"

fun store_smart_data ::
  "env \<Rightarrow> world \<Rightarrow> reading list \<Rightarrow> string option \<Rightarrow> string option \<Rightarrow> world \<times> (exn + unit)" where
  "store_smart_data e w [] serial mdl = (w, Inr ())"
| "store_smart_data e w (attr0 # attributes) serial mdl =
     (case now e w of
        (w1, ts) \<Rightarrow>
          transaction e w1
            (\<lambda>w2. logger
               (w2\<lparr>smart_data :=
                      foldl (\<lambda>rows attr. insert_or_replace (smart_row_of attr serial mdl ts) rows)
                        (smart_data w2) (attr0 # attributes)\<rparr>)
               (StoredSmartAttributes (length (attr0 # attributes)) (device attr0))))"

text \<open>
  A row of \<open>device_status\<close> with every column at its default: \<open>NULL\<close>, and \<open>0\<close> for
  \<open>spin_up_count INTEGER DEFAULT 0\<close>.
\<close>

definition status_defaults :: status_row where
  "status_defaults =
     \<lparr>ds_serial_number = None, ds_model = None, last_seen = None, is_mounted = None,
      mount_point = None, smart_enabled = None, last_smart_check = None,
      spin_up_count = Some 0\<rparr>"

text \<open>
  \<open>update_device_status\<close>: \<open>INSERT OR REPLACE\<close> writes a whole new row for the device;
  the statement names seven columns, the other two take their defaults.
\<close>

definition update_device_status ::
  "env \<Rightarrow> world \<Rightarrow> string \<Rightarrow> string option \<Rightarrow> string option \<Rightarrow> bool \<Rightarrow> bool
     \<Rightarrow> world \<times> (exn + unit)" where
  "update_device_status e w dev serial mdl mounted enabled =
     (case now e w of
        (w1, t1) \<Rightarrow>
          (case now e w1 of
             (w2, t2) \<Rightarrow>
               transaction e w2
                 (\<lambda>w3. w3\<lparr>device_status := (device_status w3)
                          (dev \<mapsto> status_defaults
                             \<lparr>ds_serial_number := serial,
                              ds_model := mdl,
                              last_seen := Some t1,
                              is_mounted := Some mounted,
                              smart_enabled := Some enabled,
                              last_smart_check := Some t2\<rparr>)\<rparr>)))"

definition create_alert ::
  "env \<Rightarrow> world \<Rightarrow> string \<Rightarrow> string \<Rightarrow> string \<Rightarrow> string \<Rightarrow> world \<times> (exn + unit)" where
  "create_alert e w dev attribute atype msg =
     (case now e w of
        (w1, ts) \<Rightarrow>
          transaction e w1
            (\<lambda>w2. logger
               (w2\<lparr>health_alerts := health_alerts w2 @
                      [\<lparr>alert_device = dev, alert_attribute_name = attribute,
                        alert_type = atype, message = msg, alert_timestamp = ts,
                        resolved = False\<rparr>]\<rparr>)
               (HealthAlert dev attribute msg)))"

subsection \<open>The health evaluator\<close>

definition critical_attrs :: "int list" where
  "critical_attrs = [5, 187, 196, 197, 198]"

text \<open>The three \<open>if\<close> statements of the loop body of \<open>check_health_thresholds\<close>.\<close>

definition threshold_rule :: "env \<Rightarrow> world \<Rightarrow> reading \<Rightarrow> world \<times> (exn + unit)" where
  "threshold_rule e w attr =
     (case py_gt (threshold attr) (PInt 0) of
        Inl ex \<Rightarrow> (w, Inl ex)
      | Inr False \<Rightarrow> (w, Inr ())
      | Inr True \<Rightarrow>
          (case py_le (normalized_value attr) (threshold attr) of
             Inl ex \<Rightarrow> (w, Inl ex)
           | Inr False \<Rightarrow> (w, Inr ())
           | Inr True \<Rightarrow>
               create_alert e w (device attr) (attribute_name attr) ''THRESHOLD_VIOLATION''
                 (''Value '' @ py_str e (normalized_value attr) @ '' below threshold '' @
                  py_str e (threshold attr))))"

definition critical_rule :: "env \<Rightarrow> world \<Rightarrow> reading \<Rightarrow> world \<times> (exn + unit)" where
  "critical_rule e w attr =
     (if in_int_list (attribute_id attr) critical_attrs then
        (case py_gt (raw_value attr) (PInt 0) of
           Inl ex \<Rightarrow> (w, Inl ex)
         | Inr False \<Rightarrow> (w, Inr ())
         | Inr True \<Rightarrow>
             create_alert e w (device attr) (attribute_name attr) ''CRITICAL_VALUE''
               (''Non-zero critical value: '' @ py_str e (raw_value attr)))
      else (w, Inr ()))"

definition temperature_rule :: "env \<Rightarrow> world \<Rightarrow> reading \<Rightarrow> world \<times> (exn + unit)" where
  "temperature_rule e w attr =
     (if in_int_list (attribute_id attr) [190, 194] then
        (case py_gt (raw_value attr) (PInt 60) of
           Inl ex \<Rightarrow> (w, Inl ex)
         | Inr False \<Rightarrow> (w, Inr ())
         | Inr True \<Rightarrow>
             create_alert e w (device attr) (attribute_name attr) ''HIGH_TEMPERATURE''
               (''High temperature: '' @ py_str e (raw_value attr) @ [CHR 0xB0] @ ''C''))
      else (w, Inr ()))"

definition check_attr :: "env \<Rightarrow> world \<Rightarrow> reading \<Rightarrow> world \<times> (exn + unit)" where
  "check_attr e w attr =
     (case threshold_rule e w attr of
        (w1, Inl ex) \<Rightarrow> (w1, Inl ex)
      | (w1, Inr u) \<Rightarrow>
          (case critical_rule e w1 attr of
             (w2, Inl ex) \<Rightarrow> (w2, Inl ex)
           | (w2, Inr u) \<Rightarrow> temperature_rule e w2 attr))"

fun check_health_thresholds :: "env \<Rightarrow> world \<Rightarrow> reading list \<Rightarrow> world \<times> (exn + unit)" where
  "check_health_thresholds e w [] = (w, Inr ())"
| "check_health_thresholds e w (attr # attributes) =
     (case check_attr e w attr of
        (w1, Inl ex) \<Rightarrow> (w1, Inl ex)
      | (w1, Inr u) \<Rightarrow> check_health_thresholds e w1 attributes)"

subsection \<open>The monitoring cycle\<close>

text \<open>
  The body of the \<open>try\<close> block for one device. \<open>Inl ex\<close> is an exception that leaves the
  block; the changes made before it stay.
\<close>

definition process_device :: "env \<Rightarrow> world \<Rightarrow> string \<Rightarrow> world \<times> (exn + unit)" where
  "process_device e w dev =
     (case get_device_info e (logger w (ProcessingDevice dev)) dev of
        (w1, (serial, mdl)) \<Rightarrow>
          (case check_smart_support e w1 dev of
             (w2, enabled) \<Rightarrow>
               (case update_device_status e w2 dev serial mdl True enabled of
                  (w3, Inl ex) \<Rightarrow> (w3, Inl ex)
                | (w3, Inr u) \<Rightarrow>
                    if \<not> enabled then (logger w3 (SmartNotSupported dev), Inr ())
                    else
                      (case collect_smart_data e w3 dev of
                         (w4, smart) \<Rightarrow>
                           if truthy smart then
                             (case parse_smart_attributes e smart dev of
                                Inl ex \<Rightarrow> (w4, Inl ex)
                              | Inr attributes \<Rightarrow>
                                  if attributes \<noteq> [] then
                                    (case store_smart_data e w4 attributes serial mdl of
                                       (w5, Inl ex) \<Rightarrow> (w5, Inl ex)
                                     | (w5, Inr u) \<Rightarrow> check_health_thresholds e w5 attributes)
                                  else (logger w4 (NoTargetAttributes dev), Inr ()))
                           else (logger w4 (NoSmartDataCollected dev), Inr ())))))"

text \<open>The \<open>for\<close> loop with its \<open>except Exception\<close> clause.\<close>

fun devices_loop :: "env \<Rightarrow> world \<Rightarrow> string list \<Rightarrow> world" where
  "devices_loop e w [] = w"
| "devices_loop e w (dev # devs) =
     (case process_device e w dev of
        (w1, Inl ex) \<Rightarrow> devices_loop e (logger w1 (ErrorProcessingDevice dev ex)) devs
      | (w1, Inr u) \<Rightarrow> devices_loop e w1 devs)"

text \<open>The devices a cycle that starts in state \<open>w\<close> discovers.\<close>

definition cycle_devices :: "env \<Rightarrow> world \<Rightarrow> string list" where
  "cycle_devices e w = get_mounted_drives (disk_partitions e (tick w))"

definition run_monitoring_cycle :: "env \<Rightarrow> world \<Rightarrow> world" where
  "run_monitoring_cycle e w =
     (let mounted_drives = cycle_devices e w;
          w1 = logger ((logger w StartingCycle)\<lparr>tick := Suc (tick w)\<rparr>)
                 (FoundMountedDrives (length mounted_drives) mounted_drives);
          w2 = devices_loop e w1 mounted_drives
      in logger w2 CycleCompleted)"

subsection \<open>The states the program can reach\<close>

text \<open>
  The states reached from the fresh database by calls of the methods that change the
  state, in any order, with any arguments, in any environment.
\<close>

inductive reachable :: "world \<Rightarrow> bool" where
  fresh: "reachable fresh_world"
| init: "reachable w \<Longrightarrow> reachable (fst (init_database e w))"
| info: "reachable w \<Longrightarrow> reachable (fst (get_device_info e w dev))"
| support: "reachable w \<Longrightarrow> reachable (fst (check_smart_support e w dev))"
| collect: "reachable w \<Longrightarrow> reachable (fst (collect_smart_data e w dev))"
| store: "reachable w \<Longrightarrow> reachable (fst (store_smart_data e w attributes serial mdl))"
| status: "reachable w \<Longrightarrow> reachable (fst (update_device_status e w dev serial mdl mounted enabled))"
| alert: "reachable w \<Longrightarrow> reachable (fst (create_alert e w dev attribute atype msg))"
| check: "reachable w \<Longrightarrow> reachable (fst (check_health_thresholds e w attributes))"
| cycle: "reachable w \<Longrightarrow> reachable (run_monitoring_cycle e w)"

subsection \<open>The health rules in the words of the specification\<close>

text \<open>
  The alert types the three rules of the specification give for a reading with attribute
  id \<open>i\<close>, threshold \<open>t\<close>, normalized value \<open>n\<close> and raw value \<open>v\<close>, in the order of the
  rules.
\<close>

definition rules_spec :: "int \<Rightarrow> int \<Rightarrow> int \<Rightarrow> int \<Rightarrow> string list" where
  "rules_spec i t n v =
     (if 0 < t \<and> n \<le> t then [''THRESHOLD_VIOLATION''] else []) @
     (if i \<in> {5, 187, 196, 197, 198} \<and> 0 < v then [''CRITICAL_VALUE''] else []) @
     (if i \<in> {190, 194} \<and> 60 < v then [''HIGH_TEMPERATURE''] else [])"

subsection \<open>A sample environment\<close>

text \<open>
  Two disks: \<open>/dev/sda\<close> is in standby, \<open>/dev/sdb\<close> is spinning and reports three
  attributes, of which id 10 is not in the catalog and id 194 comes without values. The
  sample's \<open>str\<close> writes integers, booleans, \<open>None\<close> and strings as Python does.
\<close>

fun str_nat :: "nat \<Rightarrow> string" where
  "str_nat n =
     (if n < 10 then [char_of (48 + n)]
      else str_nat (n div 10) @ [char_of (48 + n mod 10)])"

declare str_nat.simps [simp del]

definition str_int :: "int \<Rightarrow> string" where
  "str_int i = (if i < 0 then CHR ''-'' # str_nat (nat (- i)) else str_nat (nat i))"

fun example_str :: "pyval \<Rightarrow> string" where
  "example_str PNone = ''None''"
| "example_str (PBool b) = (if b then ''True'' else ''False'')"
| "example_str (PInt i) = str_int i"
| "example_str (PStr s) = s"
| "example_str (PList xs) = (if xs = [] then ''[]'' else ''[...]'')"
| "example_str (PDict kvs) = (if kvs = [] then ''{}'' else ''{...}'')"

definition example_table :: "pyval list" where
  "example_table =
     [PDict [(''id'', PInt 5), (''name'', PStr ''Reallocated_Sector_Ct''), (''value'', PInt 90),
             (''worst'', PInt 90), (''thresh'', PInt 10), (''raw'', PDict [(''value'', PInt 2)])],
      PDict [(''id'', PInt 10), (''name'', PStr ''Spin_Retry_Count''), (''value'', PInt 100),
             (''worst'', PInt 100), (''thresh'', PInt 97), (''raw'', PDict [(''value'', PInt 0)])],
      PDict [(''id'', PInt 194), (''name'', PStr ''Temperature_Celsius'')]]"

definition example_json :: pyval where
  "example_json = PDict [(''ata_smart_attributes'', PDict [(''table'', PList example_table)])]"

definition example_info :: string where
  "example_info =
     ''Device Model:     ST4000'' @ [CHR 0x0A] @ ''Serial Number:    Z300'' @ [CHR 0x0A] @
     ''SMART support is: Enabled'' @ [CHR 0x0A]"

definition example_env :: env where
  "example_env =
     \<lparr>disk_partitions = (\<lambda>t. [''/dev/sda1'', ''/dev/sdb1'', ''/dev/sdb2'']),
      subprocess_run = (\<lambda>t argv timeout.
         if argv = smartctl_info ''/dev/sda'' \<or> argv = smartctl_info ''/dev/sdb''
           then Completed 0 example_info []
         else if argv = smartctl_standby ''/dev/sda''
           then Completed 2 ''Device is in STANDBY mode, exit(2)'' []
         else if argv = smartctl_standby ''/dev/sdb''
           then Completed 0 ''Power mode is:    ACTIVE or IDLE'' []
         else if argv = smartctl_attributes ''/dev/sdb''
           then Completed 0 ''{ata_smart_attributes}'' []
         else Raised OtherError),
      datetime_now = (\<lambda>t. 1000 + t),
      sqlite_fails = (\<lambda>t. False),
      json_loads = (\<lambda>s. if s = ''{ata_smart_attributes}'' then Inr example_json
                         else Inl JSONDecodeError),
      py_str = example_str\<rparr>"

text \<open>
  The same environment with a database that rejects the transaction beginning at tick 5,
  which is the write of the status of \<open>/dev/sda\<close> in a cycle started at tick 0.
\<close>

definition failing_store_env :: env where
  "failing_store_env = example_env\<lparr>sqlite_fails := (\<lambda>t. t = 5)\<rparr>"

text \<open>
  The same environment, except that the standby probe of \<open>/dev/sdb\<close> fails: it exits
  with status 1 and an error message, and nothing on its standard output.
\<close>

definition failed_probe_env :: env where
  "failed_probe_env =
     example_env\<lparr>subprocess_run := (\<lambda>t argv timeout.
        if argv = smartctl_standby ''/dev/sdb''
          then Completed 1 [] ''Smartctl open device: /dev/sdb failed: Input/output error''
        else subprocess_run example_env t argv timeout)\<rparr>"

subsection \<open>Retained records\<close>

text \<open>
  A record of the attribute table that the parser keeps: a JSON object whose \<open>id\<close> is
  equal to one of the keys of \<open>TARGET_ATTRIBUTES\<close>.
\<close>

definition retained :: "pyval \<Rightarrow> bool" where
  "retained a =
     (case a of
        PDict attr \<Rightarrow>
          (case as_int (dict_get attr ''id'' PNone) of
             Some i \<Rightarrow> i \<in> fst ` set TARGET_ATTRIBUTES
           | None \<Rightarrow> False)
      | _ \<Rightarrow> False)"

text \<open>The readings the parser makes of the sample document.\<close>

definition example_readings :: "reading list" where
  "example_readings =
     [\<lparr>device = ''/dev/sdb'', attribute_id = PInt 5,
       attribute_name = ''Reallocated_Sector_Ct'', raw_value = PInt 2,
       normalized_value = PInt 90, threshold = PInt 10, worst_value = PInt 90,
       flags = ''{}''\<rparr>,
      \<lparr>device = ''/dev/sdb'', attribute_id = PInt 194,
       attribute_name = ''Temperature_Celsius'', raw_value = PInt 0,
       normalized_value = PInt 0, threshold = PInt 0, worst_value = PInt 0,
       flags = ''{}''\<rparr>]"

subsection \<open>Alerts added by a run\<close>

text \<open>
  The integer value of a number, and an alert without its timestamp. Two runs, from
  \<open>w1\<close> to \<open>w1'\<close> and from \<open>w2\<close> to \<open>w2'\<close>, agree on their alerts when each has only
  appended to \<open>health_alerts\<close> and the appended rows are the same but for the timestamps.
\<close>

definition num :: "pyval \<Rightarrow> int" where
  "num v = (case as_int v of Some i \<Rightarrow> i | None \<Rightarrow> 0)"

definition untimed :: "alert_row \<Rightarrow> alert_row" where
  "untimed a = a\<lparr>alert_timestamp := 0\<rparr>"

definition new_alerts :: "world \<Rightarrow> world \<Rightarrow> alert_row list" where
  "new_alerts w w' = drop (length (health_alerts w)) (health_alerts w')"

definition alerts_agree :: "world \<Rightarrow> world \<Rightarrow> world \<Rightarrow> world \<Rightarrow> bool" where
  "alerts_agree w1 w1' w2 w2' =
     (health_alerts w1' = health_alerts w1 @ new_alerts w1 w1'
      \<and> health_alerts w2' = health_alerts w2 @ new_alerts w2 w2'
      \<and> map untimed (new_alerts w1 w1') = map untimed (new_alerts w2 w2'))"

subsection \<open>Reading the trace and the log\<close>




text \<open>
  The two messages of the loop of \<open>run_monitoring_cycle\<close> itself: a device is taken up,
  and an exception of its processing is caught.
\<close>

definition is_processing :: "log_event \<Rightarrow> bool" where
  "is_processing ev = (case ev of ProcessingDevice d \<Rightarrow> True | _ \<Rightarrow> False)"

definition cycle_event :: "log_event \<Rightarrow> bool" where
  "cycle_event ev =
     (case ev of
        ProcessingDevice d \<Rightarrow> True
      | ErrorProcessingDevice d ex \<Rightarrow> True
      | _ \<Rightarrow> False)"

subsection \<open>The writes of the evaluator\<close>

text \<open>
  The calls of \<open>create_alert\<close> that the three \<open>if\<close> statements of
  \<open>check_health_thresholds\<close> make for a reading with numeric values, in their order, each
  with its device, attribute name, alert type and message; and the run of such calls one
  after the other, which ends at the first that raises.
\<close>

definition due_alerts :: "env \<Rightarrow> reading \<Rightarrow> (string \<times> string \<times> string \<times> string) list" where
  "due_alerts e attr =
     (if 0 < num (threshold attr) \<and> num (normalized_value attr) \<le> num (threshold attr)
      then [(device attr, attribute_name attr, ''THRESHOLD_VIOLATION'',
             ''Value '' @ py_str e (normalized_value attr) @ '' below threshold '' @
             py_str e (threshold attr))]
      else []) @
     (if num (attribute_id attr) \<in> set critical_attrs \<and> 0 < num (raw_value attr)
      then [(device attr, attribute_name attr, ''CRITICAL_VALUE'',
             ''Non-zero critical value: '' @ py_str e (raw_value attr))]
      else []) @
     (if num (attribute_id attr) \<in> {190, 194} \<and> 60 < num (raw_value attr)
      then [(device attr, attribute_name attr, ''HIGH_TEMPERATURE'',
             ''High temperature: '' @ py_str e (raw_value attr) @ [CHR 0xB0] @ ''C'')]
      else [])"

fun write_alerts ::
  "env \<Rightarrow> world \<Rightarrow> (string \<times> string \<times> string \<times> string) list \<Rightarrow> world \<times> (exn + unit)" where
  "write_alerts e w [] = (w, Inr ())"
| "write_alerts e w ((dev, attribute, atype, msg) # alerts) =
     (case create_alert e w dev attribute atype msg of
        (w1, Inl ex) \<Rightarrow> (w1, Inl ex)
      | (w1, Inr u) \<Rightarrow> write_alerts e w1 alerts)"

text \<open>The sample environment with a database that rejects the transaction beginning at tick \<open>t\<close>.\<close>

definition rejecting_env :: "nat \<Rightarrow> env" where
  "rejecting_env t = example_env\<lparr>sqlite_fails := (\<lambda>t'. t' = t)\<rparr>"

section \<open>Properties\<close>

subsection \<open>Device discovery\<close>

lemma dedup_first_cong: "set s1 = set s2 \<Longrightarrow> dedup_first s1 xs = dedup_first s2 xs"
proof (induction xs arbitrary: s1 s2)
  case Nil
  then show ?case by simp
next
  case (Cons x xs)
  have "set (x # s1) = set (x # s2)" using Cons.prems by simp
  from Cons.IH[OF this] Cons.IH[OF Cons.prems] Cons.prems show ?case by simp
qed

lemma set_dedup_first: "set (dedup_first seen xs) = set xs - set seen"
  by (induction xs arbitrary: seen) auto

lemma distinct_dedup_first: "distinct (dedup_first seen xs)"
  by (induction xs arbitrary: seen) (auto simp: set_dedup_first)

lemma mounted_drives_loop_eq:
  "mounted_drives_loop acc ps =
     acc @ dedup_first acc (filter (\<lambda>d. startswith d ''/dev/sd'') (map re_sub_trailing_digits ps))"
proof (induction ps arbitrary: acc)
  case Nil
  then show ?case by simp
next
  case (Cons p ps)
  have "dedup_first (acc @ [re_sub_trailing_digits p]) ys =
        dedup_first (re_sub_trailing_digits p # acc) ys" for ys
    by (rule dedup_first_cong) auto
  with Cons show ?case by (simp add: Let_def)
qed

lemma distinct_get_mounted_drives: "distinct (get_mounted_drives parts)"
  by (simp add: get_mounted_drives_def mounted_drives_loop_eq distinct_dedup_first)

text \<open>
  C3, as stated, fails: the claim has every device that backs a mounted filesystem in the
  result. A mounted NVMe partition \<open>/dev/nvme0n1p1\<close> is mapped to \<open>/dev/nvme0n1p\<close> by the
  stripping of digits and then dropped by the test \<open>device.startswith('/dev/sd')\<close>, so the
  result of \<open>get_mounted_drives\<close> is empty where the contract of the specification lists
  one device.
\<close>

theorem get_mounted_drives_not_every_device:
  "get_mounted_drives [''/dev/nvme0n1p1''] = []
   \<and> list_active_devices_spec [''/dev/nvme0n1p1''] = [''/dev/nvme0n1p'']
   \<and> get_mounted_drives [''/dev/nvme0n1p1''] \<noteq> list_active_devices_spec [''/dev/nvme0n1p1'']"
  by (simp add: get_mounted_drives_def list_active_devices_spec_def re_sub_trailing_digits_def
      strip_trailing_digits_def is_digit_def startswith_def)

text \<open>
  C3, amended: \<open>get_mounted_drives\<close> strips the trailing digits of every partition's device,
  keeps only the results that start with \<open>/dev/sd\<close>, and removes duplicates keeping the
  first occurrence. The result has no duplicates, holds exactly the stripped devices that
  start with \<open>/dev/sd\<close>, and is the empty list (a value, not an error) when nothing is
  mounted.
\<close>

theorem get_mounted_drives_sd_devices:
  "get_mounted_drives parts =
     dedup_first [] (filter (\<lambda>d. startswith d ''/dev/sd'') (map re_sub_trailing_digits parts))
   \<and> distinct (get_mounted_drives parts)
   \<and> set (get_mounted_drives parts) =
       {d. d \<in> re_sub_trailing_digits ` set parts \<and> startswith d ''/dev/sd''}
   \<and> get_mounted_drives [] = []"
proof -
  have eq: "get_mounted_drives parts =
     dedup_first [] (filter (\<lambda>d. startswith d ''/dev/sd'') (map re_sub_trailing_digits parts))"
    by (simp add: get_mounted_drives_def mounted_drives_loop_eq)
  have "set (get_mounted_drives parts) =
       {d. d \<in> re_sub_trailing_digits ` set parts \<and> startswith d ''/dev/sd''}"
    unfolding eq set_dedup_first by auto
  moreover have "get_mounted_drives [] = []"
    by (simp add: get_mounted_drives_def)
  ultimately show ?thesis
    using eq distinct_get_mounted_drives by blast
qed

theorem get_mounted_drives_sd_devices_witness:
  "get_mounted_drives [''/dev/sda1'', ''/dev/sdb1'', ''/dev/sda2'', ''/dev/nvme0n1p1'']
     = [''/dev/sda'', ''/dev/sdb'']"
  using get_mounted_drives_sd_devices
    [of "[''/dev/sda1'', ''/dev/sdb1'', ''/dev/sda2'', ''/dev/nvme0n1p1'']"]
  by (simp add: re_sub_trailing_digits_def strip_trailing_digits_def is_digit_def startswith_def)

subsection \<open>The device status table\<close>

lemma logger_fields [simp]:
  "tick (logger w ev) = tick w"
  "trace (logger w ev) = trace w"
  "logs (logger w ev) = logs w @ [ev]"
  "smart_data (logger w ev) = smart_data w"
  "device_status (logger w ev) = device_status w"
  "health_alerts (logger w ev) = health_alerts w"
  by (simp_all add: logger_def)

lemma status_get_device_info:
  "device_status (fst (get_device_info e w dev)) = device_status w"
  by (simp add: get_device_info_def run_process_def Let_def
      split: proc_outcome.splits sum.splits prod.splits)

lemma status_check_smart_support:
  "device_status (fst (check_smart_support e w dev)) = device_status w"
  by (simp add: check_smart_support_def run_process_def Let_def
      split: proc_outcome.splits exn.splits)

lemma status_collect_except: "device_status (collect_except w dev ex) = device_status w"
  by (cases ex) simp_all

lemma status_collect_smart_data:
  "device_status (fst (collect_smart_data e w dev)) = device_status w"
  by (simp add: collect_smart_data_def run_process_def Let_def status_collect_except
      split: proc_outcome.splits sum.splits)

lemma status_store_smart_data:
  "device_status (fst (store_smart_data e w rs serial mdl)) = device_status w"
  by (cases rs) (simp_all add: now_def transaction_def)

lemma status_create_alert:
  "device_status (fst (create_alert e w d a ty m)) = device_status w"
  by (simp add: create_alert_def now_def transaction_def)

lemma status_threshold_rule: "device_status (fst (threshold_rule e w r)) = device_status w"
  by (simp add: threshold_rule_def status_create_alert split: sum.splits bool.splits)

lemma status_critical_rule: "device_status (fst (critical_rule e w r)) = device_status w"
  by (simp add: critical_rule_def status_create_alert split: sum.splits bool.splits)

lemma status_temperature_rule: "device_status (fst (temperature_rule e w r)) = device_status w"
  by (simp add: temperature_rule_def status_create_alert split: sum.splits bool.splits)

lemma status_check_attr: "device_status (fst (check_attr e w r)) = device_status w"
proof -
  obtain w1 r1 where 1: "threshold_rule e w r = (w1, r1)"
    by (cases "threshold_rule e w r")
  obtain w2 r2 where 2: "critical_rule e w1 r = (w2, r2)"
    by (cases "critical_rule e w1 r")
  from status_threshold_rule[of e w r] 1 have a: "device_status w1 = device_status w"
    by simp
  from status_critical_rule[of e w1 r] 2 have b: "device_status w2 = device_status w1"
    by simp
  show ?thesis
    using 1 2 a b status_temperature_rule[of e w2 r]
    by (simp add: check_attr_def split: sum.splits)
qed

lemma status_check_health_thresholds:
  "device_status (fst (check_health_thresholds e w rs)) = device_status w"
proof (induction rs arbitrary: w)
  case Nil
  then show ?case by simp
next
  case (Cons r rs)
  obtain w1 r1 where 1: "check_attr e w r = (w1, r1)"
    by (cases "check_attr e w r")
  with status_check_attr[of e w r] have "device_status w1 = device_status w"
    by simp
  with 1 Cons.IH[of w1] show ?case
    by (simp split: sum.splits)
qed

text \<open>Every row of the status table has \<open>spin_up_count = 0\<close>.\<close>

lemma zero_update_device_status:
  assumes "\<forall>d row. device_status w d = Some row \<longrightarrow> spin_up_count row = Some 0"
    and "device_status (fst (update_device_status e w dev serial mdl m en)) d = Some row"
  shows "spin_up_count row = Some 0"
  using assms
  by (auto simp: update_device_status_def now_def transaction_def status_defaults_def
      split: if_splits)

lemma update_device_status_row:
  assumes "update_device_status e w dev serial mdl m en = (w', Inr u)"
  shows "\<exists>row. device_status w' dev = Some row \<and> spin_up_count row = Some 0
           \<and> mount_point row = None"
  using assms
  by (auto simp: update_device_status_def now_def transaction_def status_defaults_def
      split: if_splits)

lemma zero_process_device:
  assumes inv: "\<forall>d row. device_status w d = Some row \<longrightarrow> spin_up_count row = Some 0"
    and row: "device_status (fst (process_device e w dev)) d = Some row"
  shows "spin_up_count row = Some 0"
proof -
  obtain w1 serial mdl where 1:
    "get_device_info e (logger w (ProcessingDevice dev)) dev = (w1, (serial, mdl))"
    by (cases "get_device_info e (logger w (ProcessingDevice dev)) dev") auto
  obtain w2 enabled where 2: "check_smart_support e w1 dev = (w2, enabled)"
    by (cases "check_smart_support e w1 dev")
  obtain w3 r3 where 3: "update_device_status e w2 dev serial mdl True enabled = (w3, r3)"
    by (cases "update_device_status e w2 dev serial mdl True enabled")
  obtain w4 smart where 4: "collect_smart_data e w3 dev = (w4, smart)"
    by (cases "collect_smart_data e w3 dev")
  from status_get_device_info[of e "logger w (ProcessingDevice dev)" dev] 1
  have s1: "device_status w1 = device_status w" by simp
  from status_check_smart_support[of e w1 dev] 2
  have s2: "device_status w2 = device_status w1" by simp
  have inv3: "\<forall>d row. device_status w3 d = Some row \<longrightarrow> spin_up_count row = Some 0"
    using zero_update_device_status[of w2 e dev serial mdl True enabled] inv s1 s2 3
    by auto
  from status_collect_smart_data[of e w3 dev] 4
  have s4: "device_status w4 = device_status w3" by simp
  have store: "device_status w5 = device_status w4"
    if "store_smart_data e w4 rs serial mdl = (w5, r5)" for rs w5 r5
    using status_store_smart_data[of e w4 rs serial mdl] that by simp
  have "device_status (fst (process_device e w dev)) = device_status w3"
    using 1 2 3 4 s4
    by (auto simp: process_device_def status_check_health_thresholds
        split: sum.splits prod.splits dest!: store)
  with inv3 row show ?thesis by auto
qed

lemma zero_devices_loop:
  assumes "\<forall>d row. device_status w d = Some row \<longrightarrow> spin_up_count row = Some 0"
    and "device_status (devices_loop e w devs) d = Some row"
  shows "spin_up_count row = Some 0"
  using assms
proof (induction devs arbitrary: w)
  case Nil
  then show ?case by simp
next
  case (Cons dev devs)
  obtain w1 r1 where 1: "process_device e w dev = (w1, r1)"
    by (cases "process_device e w dev")
  have inv1: "\<forall>d row. device_status w1 d = Some row \<longrightarrow> spin_up_count row = Some 0"
    using zero_process_device[OF Cons.prems(1), of e dev] 1 by simp
  show ?case
  proof (cases r1)
    case (Inl ex)
    have "\<forall>d row. device_status (logger w1 (ErrorProcessingDevice dev ex)) d = Some row
             \<longrightarrow> spin_up_count row = Some 0"
      using inv1 by simp
    from Cons.IH[OF this] Cons.prems(2) 1 Inl show ?thesis by simp
  next
    case (Inr u)
    from Cons.IH[OF inv1] Cons.prems(2) 1 Inr show ?thesis by simp
  qed
qed

lemma zero_run_monitoring_cycle:
  assumes "\<forall>d row. device_status w d = Some row \<longrightarrow> spin_up_count row = Some 0"
    and "device_status (run_monitoring_cycle e w) d = Some row"
  shows "spin_up_count row = Some 0"
proof -
  let ?w1 = "logger ((logger w StartingCycle)\<lparr>tick := Suc (tick w)\<rparr>)
               (FoundMountedDrives (length (cycle_devices e w)) (cycle_devices e w))"
  have "\<forall>d row. device_status ?w1 d = Some row \<longrightarrow> spin_up_count row = Some 0"
    using assms(1) by simp
  from zero_devices_loop[OF this, of e "cycle_devices e w" d row] assms(2)
  show ?thesis by (simp add: run_monitoring_cycle_def Let_def)
qed

lemma reachable_zero:
  "reachable w \<Longrightarrow> \<forall>d row. device_status w d = Some row \<longrightarrow> spin_up_count row = Some 0"
proof (induction rule: reachable.induct)
  case fresh
  then show ?case by (simp add: fresh_world_def)
next
  case (init w e)
  then show ?case by (simp add: init_database_def transaction_def)
next
  case (info w e dev)
  then show ?case by (simp add: status_get_device_info)
next
  case (support w e dev)
  then show ?case by (simp add: status_check_smart_support)
next
  case (collect w e dev)
  then show ?case by (simp add: status_collect_smart_data)
next
  case (store w e attributes serial mdl)
  then show ?case by (simp add: status_store_smart_data)
next
  case (status w e dev serial mdl mounted enabled)
  then show ?case using zero_update_device_status by blast
next
  case (alert w e dev attribute atype msg)
  then show ?case by (simp add: status_create_alert)
next
  case (check w e attributes)
  then show ?case by (simp add: status_check_health_thresholds)
next
  case (cycle w e)
  then show ?case using zero_run_monitoring_cycle by blast
qed

text \<open>
  C9: no component increments \<open>spin_up_count\<close>. In every state reached from the fresh
  database by any sequence of operations every row of \<open>device_status\<close> has
  \<open>spin_up_count = 0\<close>; and a call of \<open>update_device_status\<close> that returns, from any
  state at all, leaves the row of its device with \<open>spin_up_count = 0\<close>, the default of
  the column, because the statement rewrites the row and gives no value for it.
\<close>

theorem spin_up_count_always_zero:
  "(reachable w \<longrightarrow> (\<forall>d row. device_status w d = Some row \<longrightarrow> spin_up_count row = Some 0))
   \<and> (update_device_status e w0 dev serial mdl mounted enabled = (w', Inr ()) \<longrightarrow>
        (\<exists>row. device_status w' dev = Some row \<and> spin_up_count row = Some 0))"
  using reachable_zero update_device_status_row by blast

theorem spin_up_count_always_zero_witness:
  "reachable (run_monitoring_cycle example_env fresh_world)
   \<and> (\<exists>row. device_status (run_monitoring_cycle example_env fresh_world) ''/dev/sda'' = Some row
          \<and> spin_up_count row = Some 0)
   \<and> (\<exists>w'. update_device_status example_env fresh_world ''/dev/sda'' None None True True
             = (w', Inr ())
          \<and> (\<exists>row. device_status w' ''/dev/sda'' = Some row \<and> spin_up_count row = Some 0))"
proof -
  have r: "reachable (run_monitoring_cycle example_env fresh_world)"
    by (rule reachable.cycle) (rule reachable.fresh)
  have d: "device_status (run_monitoring_cycle example_env fresh_world) ''/dev/sda'' \<noteq> None"
    by code_simp
  have u: "snd (update_device_status example_env fresh_world ''/dev/sda'' None None True True)
             = Inr ()"
    by code_simp
  from r d u spin_up_count_always_zero
    [of "run_monitoring_cycle example_env fresh_world" example_env fresh_world "''/dev/sda''"
        None None True True
        "fst (update_device_status example_env fresh_world ''/dev/sda'' None None True True)"]
  show ?thesis
    by (metis prod.collapse option.exhaust)
qed

subsection \<open>The parser\<close>

lemma catalog_keys:
  assumes "map_of TARGET_ATTRIBUTES k = Some name"
  shows "k \<in> {1, 3, 4, 5, 7, 9, 12, 187, 188, 190, 191, 192, 193, 194, 196, 197, 198, 199,
        222, 240, 241, 242}"
proof -
  from assms have "k \<in> fst ` set TARGET_ATTRIBUTES"
    by (metis map_of_eq_None_iff option.distinct(1))
  then show ?thesis by (simp add: TARGET_ATTRIBUTES_def)
qed

lemma target_lookup_Some:
  "target_lookup v = Inr (Some name) \<Longrightarrow>
   \<exists>k. as_int v = Some k \<and> map_of TARGET_ATTRIBUTES k = Some name"
  by (cases v) (auto split: option.splits)

lemma target_lookup_None:
  "target_lookup v = Inr None \<Longrightarrow>
   (case as_int v of Some i \<Rightarrow> i \<notin> fst ` set TARGET_ATTRIBUTES | None \<Rightarrow> True)"
  by (cases v) (auto simp: map_of_eq_None_iff split: option.splits if_splits)

lemma parse_attr_dropped: "parse_attr e dev a = Inr None \<Longrightarrow> \<not> retained a"
proof (cases a)
  case (PDict attr)
  assume "parse_attr e dev a = Inr None"
  with PDict have "target_lookup (dict_get attr ''id'' PNone) = Inr None"
    by (auto simp: Let_def split: sum.splits option.splits)
  from target_lookup_None[OF this] PDict show ?thesis
    by (auto simp: retained_def split: option.splits)
qed simp_all

lemma parse_attr_kept:
  assumes "parse_attr e dev a = Inr (Some r)"
  shows "retained a \<and>
    (\<exists>attr name raw. a = PDict attr
       \<and> target_lookup (dict_get attr ''id'' PNone) = Inr (Some name)
       \<and> py_get (dict_get attr ''raw'' (PDict [])) ''value'' (PInt 0) = Inr raw
       \<and> r = \<lparr>device = dev, attribute_id = dict_get attr ''id'' PNone, attribute_name = name,
               raw_value = raw,
               normalized_value = dict_get attr ''value'' (PInt 0),
               threshold = dict_get attr ''thresh'' (PInt 0),
               worst_value = dict_get attr ''worst'' (PInt 0),
               flags = py_str e (dict_get attr ''flags'' (PDict []))\<rparr>)"
proof (cases a)
  case (PDict attr)
  with assms obtain name raw where
    n: "target_lookup (dict_get attr ''id'' PNone) = Inr (Some name)" and
    v: "py_get (dict_get attr ''raw'' (PDict [])) ''value'' (PInt 0) = Inr raw" and
    r: "r = \<lparr>device = dev, attribute_id = dict_get attr ''id'' PNone, attribute_name = name,
               raw_value = raw,
               normalized_value = dict_get attr ''value'' (PInt 0),
               threshold = dict_get attr ''thresh'' (PInt 0),
               worst_value = dict_get attr ''worst'' (PInt 0),
               flags = py_str e (dict_get attr ''flags'' (PDict []))\<rparr>"
    by (auto simp: Let_def split: sum.splits option.splits)
  from target_lookup_Some[OF n] obtain k where
    "as_int (dict_get attr ''id'' PNone) = Some k" "map_of TARGET_ATTRIBUTES k = Some name"
    by blast
  then have "retained a"
    using PDict by (auto simp: retained_def dest: map_of_SomeD intro: rev_image_eqI)
  with PDict n v r show ?thesis by blast
qed (use assms in simp_all)

lemma parse_table_loop_all2:
  assumes keep: "\<And>a r. parse_attr e dev a = Inr (Some r) \<Longrightarrow> R a r"
    and run: "parse_table_loop e dev acc table = Inr rs"
  shows "\<exists>rs'. rs = acc @ rs' \<and> list_all2 R (filter retained table) rs'"
  using run
proof (induction table arbitrary: acc)
  case Nil
  then show ?case by simp
next
  case (Cons a table)
  show ?case
  proof (cases "parse_attr e dev a")
    case (Inl ex)
    with Cons.prems show ?thesis by simp
  next
    case (Inr res)
    show ?thesis
    proof (cases res)
      case None
      with Inr Cons.prems have "parse_table_loop e dev acc table = Inr rs" by simp
      from Cons.IH[OF this] parse_attr_dropped[of e dev a] Inr None show ?thesis by simp
    next
      case (Some r)
      with Inr Cons.prems have "parse_table_loop e dev (acc @ [r]) table = Inr rs" by simp
      from Cons.IH[OF this] obtain rs' where
        "rs = (acc @ [r]) @ rs'" "list_all2 R (filter retained table) rs'" by blast
      moreover have "retained a" "R a r"
        using parse_attr_kept[of e dev a r] keep[of a r] Inr Some by simp_all
      ultimately show ?thesis by simp
    qed
  qed
qed

lemma parse_smart_attributes_table:
  assumes "smart = PDict kvs"
    and "map_of kvs ''ata_smart_attributes'' = Some (PDict tkvs)"
    and "map_of tkvs ''table'' = Some (PList table)"
  shows "parse_smart_attributes e smart dev = parse_table_loop e dev [] table"
  using assms by (simp add: parse_smart_attributes_def dict_get_def)

lemma parse_smart_attributes_elems:
  assumes keep: "\<And>a r. parse_attr e dev a = Inr (Some r) \<Longrightarrow> P r"
    and run: "parse_smart_attributes e smart dev = Inr rs"
  shows "\<forall>r \<in> set rs. P r"
proof (cases "\<exists>table. parse_table_loop e dev [] table = Inr rs")
  case True
  then obtain table where t: "parse_table_loop e dev [] table = Inr rs" by blast
  have "\<exists>rs'. rs = [] @ rs' \<and> list_all2 (\<lambda>a r. P r) (filter retained table) rs'"
    by (rule parse_table_loop_all2[OF _ t]) (rule keep)
  then show ?thesis by (auto simp: list_all2_conv_all_nth in_set_conv_nth)
next
  case False
  with run have "rs = []"
    by (auto simp: parse_smart_attributes_def
        split: sum.splits bool.splits pyval.splits)
  then show ?thesis by simp
qed

text \<open>
  C5: the allow-list. Whatever the document, every reading the parser returns has an id
  equal to one of the 22 keys of the catalog, and carries the catalog's name for that key.
  For a document with an attribute table, the readings are, in order, those of the
  retained records: a record whose id is not a key of the catalog gives no reading.
\<close>

theorem parse_smart_attributes_allow_list:
  assumes "parse_smart_attributes e smart dev = Inr rs"
  shows "(\<forall>r \<in> set rs. \<exists>k \<in> {1, 3, 4, 5, 7, 9, 12, 187, 188, 190, 191, 192, 193, 194, 196,
                               197, 198, 199, 222, 240, 241, 242}.
            as_int (attribute_id r) = Some k
            \<and> map_of TARGET_ATTRIBUTES k = Some (attribute_name r))
       \<and> (\<forall>kvs tkvs table.
            smart = PDict kvs \<and> map_of kvs ''ata_smart_attributes'' = Some (PDict tkvs)
            \<and> map_of tkvs ''table'' = Some (PList table) \<longrightarrow>
            list_all2 (\<lambda>a r. \<exists>attr. a = PDict attr \<and> attribute_id r = dict_get attr ''id'' PNone)
              (filter retained table) rs)"
proof (intro conjI allI impI)
  show "\<forall>r \<in> set rs. \<exists>k \<in> {1, 3, 4, 5, 7, 9, 12, 187, 188, 190, 191, 192, 193, 194, 196,
                               197, 198, 199, 222, 240, 241, 242}.
            as_int (attribute_id r) = Some k
            \<and> map_of TARGET_ATTRIBUTES k = Some (attribute_name r)"
  proof (rule parse_smart_attributes_elems[OF _ assms])
    fix a r
    assume "parse_attr e dev a = Inr (Some r)"
    from parse_attr_kept[OF this] obtain attr name where
      n: "target_lookup (dict_get attr ''id'' PNone) = Inr (Some name)" and
      i: "attribute_id r = dict_get attr ''id'' PNone" and a: "attribute_name r = name"
      by auto
    from target_lookup_Some[OF n] obtain k where
      k: "as_int (dict_get attr ''id'' PNone) = Some k" and
      m: "map_of TARGET_ATTRIBUTES k = Some name"
      by blast
    have "as_int (attribute_id r) = Some k \<and> map_of TARGET_ATTRIBUTES k = Some (attribute_name r)"
      using i a k m by simp
    with catalog_keys[OF m]
    show "\<exists>k \<in> {1, 3, 4, 5, 7, 9, 12, 187, 188, 190, 191, 192, 193, 194, 196,
                               197, 198, 199, 222, 240, 241, 242}.
            as_int (attribute_id r) = Some k
            \<and> map_of TARGET_ATTRIBUTES k = Some (attribute_name r)"
      by (rule bexI[rotated])
  qed
next
  fix kvs tkvs table
  assume "smart = PDict kvs \<and> map_of kvs ''ata_smart_attributes'' = Some (PDict tkvs)
            \<and> map_of tkvs ''table'' = Some (PList table)"
  with assms have t: "parse_table_loop e dev [] table = Inr rs"
    by (simp add: parse_smart_attributes_table)
  have "\<exists>rs'. rs = [] @ rs' \<and>
      list_all2 (\<lambda>a r. \<exists>attr. a = PDict attr \<and> attribute_id r = dict_get attr ''id'' PNone)
        (filter retained table) rs'"
  proof (rule parse_table_loop_all2[OF _ t])
    fix a r
    assume "parse_attr e dev a = Inr (Some r)"
    from parse_attr_kept[OF this]
    show "\<exists>attr. a = PDict attr \<and> attribute_id r = dict_get attr ''id'' PNone"
      by auto
  qed
  then show "list_all2 (\<lambda>a r. \<exists>attr. a = PDict attr \<and> attribute_id r = dict_get attr ''id'' PNone)
        (filter retained table) rs"
    by simp
qed

lemma example_parse:
  "parse_smart_attributes example_env example_json ''/dev/sdb'' = Inr example_readings"
  by code_simp

lemma example_shape:
  "example_json = PDict [(''ata_smart_attributes'', PDict [(''table'', PList example_table)])]
   \<and> map_of [(''ata_smart_attributes'', PDict [(''table'', PList example_table)])]
         ''ata_smart_attributes'' = Some (PDict [(''table'', PList example_table)])
   \<and> map_of [(''table'', PList example_table)] ''table'' = Some (PList example_table)"
  by (simp add: example_json_def)

theorem parse_smart_attributes_allow_list_witness:
  "parse_smart_attributes example_env example_json ''/dev/sdb'' = Inr example_readings
   \<and> (\<exists>r \<in> set example_readings.
         \<exists>k \<in> {1, 3, 4, 5, 7, 9, 12, 187, 188, 190, 191, 192, 193,
                194, 196, 197, 198, 199, 222, 240, 241, 242}.
            as_int (attribute_id r) = Some k
            \<and> map_of TARGET_ATTRIBUTES k = Some (attribute_name r))
   \<and> list_all2 (\<lambda>a r. \<exists>attr. a = PDict attr \<and> attribute_id r = dict_get attr ''id'' PNone)
        (filter retained example_table) example_readings"
proof (intro conjI)
  note t = parse_smart_attributes_allow_list[OF example_parse]
  show "parse_smart_attributes example_env example_json ''/dev/sdb'' = Inr example_readings"
    by (rule example_parse)
  have mem: "hd example_readings \<in> set example_readings"
    by (simp add: example_readings_def)
  from t[THEN conjunct1, THEN bspec, OF mem] mem
  show "\<exists>r \<in> set example_readings.
         \<exists>k \<in> {1, 3, 4, 5, 7, 9, 12, 187, 188, 190, 191, 192, 193,
                194, 196, 197, 198, 199, 222, 240, 241, 242}.
            as_int (attribute_id r) = Some k
            \<and> map_of TARGET_ATTRIBUTES k = Some (attribute_name r)"
    by (rule bexI)
  from t[THEN conjunct2, THEN spec, THEN spec, THEN spec, THEN mp, OF example_shape]
  show "list_all2 (\<lambda>a r. \<exists>attr. a = PDict attr \<and> attribute_id r = dict_get attr ''id'' PNone)
        (filter retained example_table) example_readings" .
qed

lemma parse_table_loop_total:
  assumes "\<forall>a \<in> set table. \<exists>attr. a = PDict attr
             \<and> (\<forall>xs. dict_get attr ''id'' PNone \<noteq> PList xs)
             \<and> (\<forall>m. dict_get attr ''id'' PNone \<noteq> PDict m)
             \<and> (map_of attr ''raw'' = None \<or> (\<exists>raw. map_of attr ''raw'' = Some (PDict raw)))"
  shows "\<exists>rs. parse_table_loop e dev acc table = Inr rs"
  using assms
proof (induction table arbitrary: acc)
  case Nil
  then show ?case by simp
next
  case (Cons a table)
  then obtain attr where a: "a = PDict attr"
    and i: "\<forall>xs. dict_get attr ''id'' PNone \<noteq> PList xs" "\<forall>m. dict_get attr ''id'' PNone \<noteq> PDict m"
    and r: "map_of attr ''raw'' = None \<or> (\<exists>raw. map_of attr ''raw'' = Some (PDict raw))"
    by auto
  from i have "\<exists>res. target_lookup (dict_get attr ''id'' PNone) = Inr res"
    by (cases "dict_get attr ''id'' PNone") simp_all
  moreover from r have "\<exists>v. py_get (dict_get attr ''raw'' (PDict [])) ''value'' (PInt 0) = Inr v"
    by (auto simp: dict_get_def)
  ultimately have "\<exists>res. parse_attr e dev a = Inr res"
    using a by (auto simp: Let_def split: option.splits)
  then obtain res where "parse_attr e dev a = Inr res" by blast
  moreover have "\<exists>rs. parse_table_loop e dev acc' table = Inr rs" for acc'
    using Cons.IH[of acc'] Cons.prems by simp
  ultimately show ?case
    by (cases res) simp_all
qed

lemma zero_threshold_no_alert: "threshold r = PInt 0 \<Longrightarrow> threshold_rule e w r = (w, Inr ())"
  by (simp add: threshold_rule_def py_gt_def)

lemma zero_raw_no_alert:
  "raw_value r = PInt 0 \<Longrightarrow>
   critical_rule e w r = (w, Inr ()) \<and> temperature_rule e w r = (w, Inr ())"
  by (simp add: critical_rule_def temperature_rule_def py_gt_def)

text \<open>
  C10: a missing field becomes 0. For a document with an attribute table, the parser
  returns when every record is an object with a hashable id and with \<open>raw\<close> absent or an
  object; and whenever it returns, its readings are those of the retained records, in
  order, where an absent \<open>value\<close>, \<open>thresh\<close> or \<open>worst\<close>, an absent \<open>raw\<close> and a \<open>raw\<close>
  without \<open>value\<close> each give 0 in the reading. A reading with threshold 0 does not raise
  the threshold rule, and one with raw value 0 raises neither the critical-value rule nor
  the temperature rule.
\<close>

theorem missing_fields_become_zero:
  assumes "smart = PDict kvs"
    and "map_of kvs ''ata_smart_attributes'' = Some (PDict tkvs)"
    and "map_of tkvs ''table'' = Some (PList table)"
  shows "((\<forall>a \<in> set table. \<exists>attr. a = PDict attr
             \<and> (\<forall>xs. dict_get attr ''id'' PNone \<noteq> PList xs)
             \<and> (\<forall>m. dict_get attr ''id'' PNone \<noteq> PDict m)
             \<and> (map_of attr ''raw'' = None \<or> (\<exists>raw. map_of attr ''raw'' = Some (PDict raw))))
          \<longrightarrow> (\<exists>rs. parse_smart_attributes e smart dev = Inr rs))
     \<and> (\<forall>rs. parse_smart_attributes e smart dev = Inr rs \<longrightarrow>
           list_all2
             (\<lambda>a r. \<exists>attr. a = PDict attr
                \<and> (map_of attr ''value'' = None \<longrightarrow> normalized_value r = PInt 0)
                \<and> (map_of attr ''thresh'' = None \<longrightarrow> threshold r = PInt 0)
                \<and> (map_of attr ''worst'' = None \<longrightarrow> worst_value r = PInt 0)
                \<and> (map_of attr ''raw'' = None \<longrightarrow> raw_value r = PInt 0)
                \<and> (\<forall>raw. map_of attr ''raw'' = Some (PDict raw) \<and> map_of raw ''value'' = None
                      \<longrightarrow> raw_value r = PInt 0))
             (filter retained table) rs
           \<and> (\<forall>r \<in> set rs. \<forall>e' w.
                 (threshold r = PInt 0 \<longrightarrow> threshold_rule e' w r = (w, Inr ()))
                 \<and> (raw_value r = PInt 0 \<longrightarrow>
                      critical_rule e' w r = (w, Inr ())
                      \<and> temperature_rule e' w r = (w, Inr ()))))"
proof (intro conjI allI impI ballI)
  assume "\<forall>a \<in> set table. \<exists>attr. a = PDict attr
             \<and> (\<forall>xs. dict_get attr ''id'' PNone \<noteq> PList xs)
             \<and> (\<forall>m. dict_get attr ''id'' PNone \<noteq> PDict m)
             \<and> (map_of attr ''raw'' = None \<or> (\<exists>raw. map_of attr ''raw'' = Some (PDict raw)))"
  from parse_table_loop_total[OF this, of e dev "[]"]
  show "\<exists>rs. parse_smart_attributes e smart dev = Inr rs"
    by (simp add: parse_smart_attributes_table[OF assms])
next
  fix rs
  assume "parse_smart_attributes e smart dev = Inr rs"
  then have t: "parse_table_loop e dev [] table = Inr rs"
    by (simp add: parse_smart_attributes_table[OF assms])
  have "\<exists>rs'. rs = [] @ rs' \<and>
         list_all2
             (\<lambda>a r. \<exists>attr. a = PDict attr
                \<and> (map_of attr ''value'' = None \<longrightarrow> normalized_value r = PInt 0)
                \<and> (map_of attr ''thresh'' = None \<longrightarrow> threshold r = PInt 0)
                \<and> (map_of attr ''worst'' = None \<longrightarrow> worst_value r = PInt 0)
                \<and> (map_of attr ''raw'' = None \<longrightarrow> raw_value r = PInt 0)
                \<and> (\<forall>raw. map_of attr ''raw'' = Some (PDict raw) \<and> map_of raw ''value'' = None
                      \<longrightarrow> raw_value r = PInt 0))
             (filter retained table) rs'"
  proof (rule parse_table_loop_all2[OF _ t])
    fix a r
    assume "parse_attr e dev a = Inr (Some r)"
    from parse_attr_kept[OF this] obtain attr name raw where
      a: "a = PDict attr" and
      v: "py_get (dict_get attr ''raw'' (PDict [])) ''value'' (PInt 0) = Inr raw" and
      r: "r = \<lparr>device = dev, attribute_id = dict_get attr ''id'' PNone, attribute_name = name,
               raw_value = raw,
               normalized_value = dict_get attr ''value'' (PInt 0),
               threshold = dict_get attr ''thresh'' (PInt 0),
               worst_value = dict_get attr ''worst'' (PInt 0),
               flags = py_str e (dict_get attr ''flags'' (PDict []))\<rparr>"
      by blast
    have "map_of attr ''raw'' = None \<longrightarrow> raw = PInt 0"
      using v by (auto simp: dict_get_def)
    moreover have "\<forall>m. map_of attr ''raw'' = Some (PDict m) \<and> map_of m ''value'' = None
                      \<longrightarrow> raw = PInt 0"
      using v by (auto simp: dict_get_def)
    ultimately show "\<exists>attr. a = PDict attr
                \<and> (map_of attr ''value'' = None \<longrightarrow> normalized_value r = PInt 0)
                \<and> (map_of attr ''thresh'' = None \<longrightarrow> threshold r = PInt 0)
                \<and> (map_of attr ''worst'' = None \<longrightarrow> worst_value r = PInt 0)
                \<and> (map_of attr ''raw'' = None \<longrightarrow> raw_value r = PInt 0)
                \<and> (\<forall>raw. map_of attr ''raw'' = Some (PDict raw) \<and> map_of raw ''value'' = None
                      \<longrightarrow> raw_value r = PInt 0)"
      using a r by (simp add: dict_get_def)
  qed
  then show "list_all2
             (\<lambda>a r. \<exists>attr. a = PDict attr
                \<and> (map_of attr ''value'' = None \<longrightarrow> normalized_value r = PInt 0)
                \<and> (map_of attr ''thresh'' = None \<longrightarrow> threshold r = PInt 0)
                \<and> (map_of attr ''worst'' = None \<longrightarrow> worst_value r = PInt 0)
                \<and> (map_of attr ''raw'' = None \<longrightarrow> raw_value r = PInt 0)
                \<and> (\<forall>raw. map_of attr ''raw'' = Some (PDict raw) \<and> map_of raw ''value'' = None
                      \<longrightarrow> raw_value r = PInt 0))
             (filter retained table) rs"
    by simp
next
  fix rs and r :: reading and e' w
  assume "threshold r = PInt 0"
  then show "threshold_rule e' w r = (w, Inr ())" by (rule zero_threshold_no_alert)
next
  fix rs and r :: reading and e' w
  assume "raw_value r = PInt 0"
  then show "critical_rule e' w r = (w, Inr ())" using zero_raw_no_alert by blast
next
  fix rs and r :: reading and e' w
  assume "raw_value r = PInt 0"
  then show "temperature_rule e' w r = (w, Inr ())" using zero_raw_no_alert by blast
qed

lemma example_table_well_formed:
  "\<forall>a \<in> set example_table. \<exists>attr. a = PDict attr
             \<and> (\<forall>xs. dict_get attr ''id'' PNone \<noteq> PList xs)
             \<and> (\<forall>m. dict_get attr ''id'' PNone \<noteq> PDict m)
             \<and> (map_of attr ''raw'' = None \<or> (\<exists>raw. map_of attr ''raw'' = Some (PDict raw)))"
  by (simp add: example_table_def dict_get_def)

theorem missing_fields_become_zero_witness:
  "\<exists>rs. parse_smart_attributes example_env example_json ''/dev/sdb'' = Inr rs
     \<and> list_all2
             (\<lambda>a r. \<exists>attr. a = PDict attr
                \<and> (map_of attr ''value'' = None \<longrightarrow> normalized_value r = PInt 0)
                \<and> (map_of attr ''thresh'' = None \<longrightarrow> threshold r = PInt 0)
                \<and> (map_of attr ''worst'' = None \<longrightarrow> worst_value r = PInt 0)
                \<and> (map_of attr ''raw'' = None \<longrightarrow> raw_value r = PInt 0)
                \<and> (\<forall>raw. map_of attr ''raw'' = Some (PDict raw) \<and> map_of raw ''value'' = None
                      \<longrightarrow> raw_value r = PInt 0))
             (filter retained example_table) rs
     \<and> map_of [(''id'', PInt 194), (''name'', PStr ''Temperature_Celsius'')] ''thresh'' = None
     \<and> PDict [(''id'', PInt 194), (''name'', PStr ''Temperature_Celsius'')]
          \<in> set (filter retained example_table)"
proof -
  have shape:
    "example_json = PDict [(''ata_smart_attributes'', PDict [(''table'', PList example_table)])]"
    "map_of [(''ata_smart_attributes'', PDict [(''table'', PList example_table)])]
         ''ata_smart_attributes'' = Some (PDict [(''table'', PList example_table)])"
    "map_of [(''table'', PList example_table)] ''table'' = Some (PList example_table)"
    by (simp_all add: example_json_def)
  note t = missing_fields_become_zero[OF shape, of example_env "''/dev/sdb''"]
  from t[THEN conjunct1, THEN mp, OF example_table_well_formed]
  obtain rs where p: "parse_smart_attributes example_env example_json ''/dev/sdb'' = Inr rs" ..
  note l = t[THEN conjunct2, THEN spec, THEN mp, OF p, THEN conjunct1]
  have m: "map_of [(''id'', PInt 194), (''name'', PStr ''Temperature_Celsius'')] ''thresh'' = None"
    by simp
  have kept: "PDict [(''id'', PInt 194), (''name'', PStr ''Temperature_Celsius'')]
          \<in> set (filter retained example_table)"
    by (simp add: example_table_def retained_def dict_get_def TARGET_ATTRIBUTES_def)
  show ?thesis
    by (intro exI conjI) (rule p l m kept)+
qed

subsection \<open>The health evaluator\<close>

lemma alerts_agreeI:
  assumes "health_alerts w1' = health_alerts w1 @ n1"
    and "health_alerts w2' = health_alerts w2 @ n2"
    and "map untimed n1 = map untimed n2"
  shows "alerts_agree w1 w1' w2 w2'"
  using assms by (simp add: alerts_agree_def new_alerts_def)

lemma alerts_agree_refl: "alerts_agree w1 w1 w2 w2"
  by (rule alerts_agreeI[of _ _ "[]" _ _ "[]"]) simp_all

lemma alerts_agree_trans:
  assumes "alerts_agree w1 w1' w2 w2'" and "alerts_agree w1' w1'' w2' w2''"
  shows "alerts_agree w1 w1'' w2 w2''"
proof (rule alerts_agreeI)
  show "health_alerts w1'' = health_alerts w1 @ (new_alerts w1 w1' @ new_alerts w1' w1'')"
    using assms by (simp add: alerts_agree_def)
  show "health_alerts w2'' = health_alerts w2 @ (new_alerts w2 w2' @ new_alerts w2' w2'')"
    using assms by (simp add: alerts_agree_def)
  show "map untimed (new_alerts w1 w1' @ new_alerts w1' w1'')
      = map untimed (new_alerts w2 w2' @ new_alerts w2' w2'')"
    using assms by (simp add: alerts_agree_def)
qed

lemma create_alert_accepted:
  assumes "\<forall>t. \<not> sqlite_fails e t"
  shows "\<exists>w'. create_alert e w d a ty m = (w', Inr ())
           \<and> health_alerts w' = health_alerts w @
                [\<lparr>alert_device = d, alert_attribute_name = a, alert_type = ty, message = m,
                  alert_timestamp = datetime_now e (tick w), resolved = False\<rparr>]"
  using assms by (simp add: create_alert_def now_def transaction_def)

lemma create_alert_agree:
  assumes "\<forall>t. \<not> sqlite_fails e1 t" and "\<forall>t. \<not> sqlite_fails e2 t"
    and "create_alert e1 w1 d a ty m = (w1', res1)"
    and "create_alert e2 w2 d a ty m = (w2', res2)"
  shows "res1 = res2 \<and> alerts_agree w1 w1' w2 w2'"
proof -
  from create_alert_accepted[OF assms(1), of w1 d a ty m] assms(3)
  have 1: "res1 = Inr ()" "health_alerts w1' = health_alerts w1 @
                [\<lparr>alert_device = d, alert_attribute_name = a, alert_type = ty, message = m,
                  alert_timestamp = datetime_now e1 (tick w1), resolved = False\<rparr>]"
    by auto
  from create_alert_accepted[OF assms(2), of w2 d a ty m] assms(4)
  have 2: "res2 = Inr ()" "health_alerts w2' = health_alerts w2 @
                [\<lparr>alert_device = d, alert_attribute_name = a, alert_type = ty, message = m,
                  alert_timestamp = datetime_now e2 (tick w2), resolved = False\<rparr>]"
    by auto
  have "alerts_agree w1 w1' w2 w2'"
    by (rule alerts_agreeI[OF 1(2) 2(2)]) (simp add: untimed_def)
  with 1(1) 2(1) show ?thesis by simp
qed

lemma threshold_rule_agree:
  assumes "\<forall>t. \<not> sqlite_fails e1 t" and "\<forall>t. \<not> sqlite_fails e2 t"
    and "py_str e1 = py_str e2"
    and "threshold_rule e1 w1 r = (w1', res1)"
    and "threshold_rule e2 w2 r = (w2', res2)"
  shows "res1 = res2 \<and> alerts_agree w1 w1' w2 w2'"
  using assms(3-5) create_alert_agree[OF assms(1,2)] alerts_agree_refl
  by (auto simp: threshold_rule_def split: sum.splits bool.splits)

lemma critical_rule_agree:
  assumes "\<forall>t. \<not> sqlite_fails e1 t" and "\<forall>t. \<not> sqlite_fails e2 t"
    and "py_str e1 = py_str e2"
    and "critical_rule e1 w1 r = (w1', res1)"
    and "critical_rule e2 w2 r = (w2', res2)"
  shows "res1 = res2 \<and> alerts_agree w1 w1' w2 w2'"
  using assms(3-5) create_alert_agree[OF assms(1,2)] alerts_agree_refl
  by (auto simp: critical_rule_def split: sum.splits bool.splits if_splits)

lemma temperature_rule_agree:
  assumes "\<forall>t. \<not> sqlite_fails e1 t" and "\<forall>t. \<not> sqlite_fails e2 t"
    and "py_str e1 = py_str e2"
    and "temperature_rule e1 w1 r = (w1', res1)"
    and "temperature_rule e2 w2 r = (w2', res2)"
  shows "res1 = res2 \<and> alerts_agree w1 w1' w2 w2'"
  using assms(3-5) create_alert_agree[OF assms(1,2)] alerts_agree_refl
  by (auto simp: temperature_rule_def split: sum.splits bool.splits if_splits)

lemma check_attr_agree:
  assumes nf: "\<forall>t. \<not> sqlite_fails e1 t" "\<forall>t. \<not> sqlite_fails e2 t"
    and str: "py_str e1 = py_str e2"
    and 1: "check_attr e1 w1 r = (w1', res1)"
    and 2: "check_attr e2 w2 r = (w2', res2)"
  shows "res1 = res2 \<and> alerts_agree w1 w1' w2 w2'"
proof -
  obtain a1 ra1 where t1: "threshold_rule e1 w1 r = (a1, ra1)"
    by (cases "threshold_rule e1 w1 r")
  obtain a2 ra2 where t2: "threshold_rule e2 w2 r = (a2, ra2)"
    by (cases "threshold_rule e2 w2 r")
  from threshold_rule_agree[OF nf str t1 t2]
  have ta: "ra1 = ra2" "alerts_agree w1 a1 w2 a2" by simp_all
  show ?thesis
  proof (cases ra1)
    case (Inl ex)
    with 1 2 t1 t2 ta show ?thesis by (auto simp: check_attr_def)
  next
    case (Inr u)
    obtain b1 rb1 where c1: "critical_rule e1 a1 r = (b1, rb1)"
      by (cases "critical_rule e1 a1 r")
    obtain b2 rb2 where c2: "critical_rule e2 a2 r = (b2, rb2)"
      by (cases "critical_rule e2 a2 r")
    from critical_rule_agree[OF nf str c1 c2]
    have ca: "rb1 = rb2" "alerts_agree a1 b1 a2 b2" by simp_all
    show ?thesis
    proof (cases rb1)
      case (Inl ex)
      with 1 2 t1 t2 ta Inr c1 c2 ca alerts_agree_trans[OF ta(2) ca(2)] show ?thesis
        by (auto simp: check_attr_def)
    next
      case (Inr u')
      with 1 2 t1 t2 ta \<open>ra1 = Inr u\<close> c1 c2 ca
      have "temperature_rule e1 b1 r = (w1', res1)" "temperature_rule e2 b2 r = (w2', res2)"
        by (auto simp: check_attr_def)
      from temperature_rule_agree[OF nf str this]
        alerts_agree_trans[OF alerts_agree_trans[OF ta(2) ca(2)]]
      show ?thesis by blast
    qed
  qed
qed

lemma check_health_thresholds_agree:
  assumes nf: "\<forall>t. \<not> sqlite_fails e1 t" "\<forall>t. \<not> sqlite_fails e2 t"
    and str: "py_str e1 = py_str e2"
    and "check_health_thresholds e1 w1 rs = (w1', res1)"
    and "check_health_thresholds e2 w2 rs = (w2', res2)"
  shows "res1 = res2 \<and> alerts_agree w1 w1' w2 w2'"
  using assms(4,5)
proof (induction rs arbitrary: w1 w2)
  case Nil
  then show ?case using alerts_agree_refl by auto
next
  case (Cons r rs)
  obtain a1 ra1 where c1: "check_attr e1 w1 r = (a1, ra1)"
    by (cases "check_attr e1 w1 r")
  obtain a2 ra2 where c2: "check_attr e2 w2 r = (a2, ra2)"
    by (cases "check_attr e2 w2 r")
  from check_attr_agree[OF nf str c1 c2]
  have ca: "ra1 = ra2" "alerts_agree w1 a1 w2 a2" by simp_all
  show ?case
  proof (cases ra1)
    case (Inl ex)
    with Cons.prems c1 c2 ca show ?thesis by auto
  next
    case (Inr u)
    with Cons.prems c1 c2 ca
    have "check_health_thresholds e1 a1 rs = (w1', res1)"
      "check_health_thresholds e2 a2 rs = (w2', res2)"
      by auto
    from Cons.IH[OF this] alerts_agree_trans[OF ca(2)] show ?thesis by blast
  qed
qed

text \<open>
  C8: the evaluator is deterministic. Two runs of \<open>check_health_thresholds\<close> on the same
  readings, from any two states and at any two times, with a store that accepts the
  writes, end the same way (both return, or both raise the same exception at the same
  reading) and append the same alerts to \<open>health_alerts\<close>: the same devices, attribute
  names, alert types, messages and \<open>resolved\<close> flags, in the same order; only the
  timestamps can differ. The second run may start where the first ended.
\<close>

theorem check_health_thresholds_deterministic:
  assumes "\<forall>t. \<not> sqlite_fails e1 t" and "\<forall>t. \<not> sqlite_fails e2 t"
    and "py_str e1 = py_str e2"
    and "check_health_thresholds e1 w1 rs = (w1', res1)"
    and "check_health_thresholds e2 w2 rs = (w2', res2)"
  shows "res1 = res2
     \<and> (\<exists>new1 new2. health_alerts w1' = health_alerts w1 @ new1
           \<and> health_alerts w2' = health_alerts w2 @ new2
           \<and> map (\<lambda>a. a\<lparr>alert_timestamp := 0\<rparr>) new1 = map (\<lambda>a. a\<lparr>alert_timestamp := 0\<rparr>) new2)"
proof -
  from check_health_thresholds_agree[OF assms]
  have "res1 = res2" and a: "alerts_agree w1 w1' w2 w2'" by simp_all
  from a have "health_alerts w1' = health_alerts w1 @ new_alerts w1 w1'
      \<and> health_alerts w2' = health_alerts w2 @ new_alerts w2 w2'
      \<and> map (\<lambda>a. a\<lparr>alert_timestamp := 0\<rparr>) (new_alerts w1 w1')
        = map (\<lambda>a. a\<lparr>alert_timestamp := 0\<rparr>) (new_alerts w2 w2')"
    unfolding alerts_agree_def untimed_def by simp
  with \<open>res1 = res2\<close> show ?thesis by blast
qed

theorem check_health_thresholds_deterministic_witness:
  "snd (check_health_thresholds example_env fresh_world example_readings)
     = snd (check_health_thresholds example_env
              (fst (check_health_thresholds example_env fresh_world example_readings))
              example_readings)
   \<and> (\<exists>new1 new2.
         health_alerts (fst (check_health_thresholds example_env fresh_world example_readings))
           = health_alerts fresh_world @ new1
       \<and> health_alerts (fst (check_health_thresholds example_env
              (fst (check_health_thresholds example_env fresh_world example_readings))
              example_readings))
           = health_alerts (fst (check_health_thresholds example_env fresh_world example_readings))
               @ new2
       \<and> map (\<lambda>a. a\<lparr>alert_timestamp := 0\<rparr>) new1 = map (\<lambda>a. a\<lparr>alert_timestamp := 0\<rparr>) new2)"
proof -
  have nf: "\<forall>t. \<not> sqlite_fails example_env t"
    by (simp add: example_env_def)
  show ?thesis
    by (rule check_health_thresholds_deterministic
        [OF nf nf refl prod.collapse[symmetric] prod.collapse[symmetric]])
qed

lemma threshold_rule_spec:
  assumes "\<forall>t. \<not> sqlite_fails e t"
    and "as_int (threshold r) = Some t" and "as_int (normalized_value r) = Some n"
  shows "\<exists>w' new. threshold_rule e w r = (w', Inr ())
           \<and> health_alerts w' = health_alerts w @ new
           \<and> map (\<lambda>a. (alert_device a, alert_attribute_name a, alert_type a)) new
               = map (\<lambda>ty. (device r, attribute_name r, ty))
                   (if 0 < t \<and> n \<le> t then [''THRESHOLD_VIOLATION''] else [])"
proof (cases "0 < t \<and> n \<le> t")
  case True
  let ?m = "''Value '' @ py_str e (normalized_value r) @ '' below threshold '' @
            py_str e (threshold r)"
  from create_alert_accepted[OF assms(1), of w "device r" "attribute_name r"
      "''THRESHOLD_VIOLATION''" ?m]
  obtain w' where "create_alert e w (device r) (attribute_name r) ''THRESHOLD_VIOLATION'' ?m
        = (w', Inr ())"
    "health_alerts w' = health_alerts w @
       [\<lparr>alert_device = device r, alert_attribute_name = attribute_name r,
         alert_type = ''THRESHOLD_VIOLATION'', message = ?m,
         alert_timestamp = datetime_now e (tick w), resolved = False\<rparr>]"
    by blast
  with True assms(2,3) show ?thesis
    by (simp add: threshold_rule_def py_gt_def py_le_def)
next
  case False
  with assms(2,3) have "threshold_rule e w r = (w, Inr ())"
    by (auto simp: threshold_rule_def py_gt_def py_le_def split: bool.splits)
  with False show ?thesis by simp
qed

lemma critical_rule_spec:
  assumes "\<forall>t. \<not> sqlite_fails e t"
    and "as_int (attribute_id r) = Some i" and "as_int (raw_value r) = Some v"
  shows "\<exists>w' new. critical_rule e w r = (w', Inr ())
           \<and> health_alerts w' = health_alerts w @ new
           \<and> map (\<lambda>a. (alert_device a, alert_attribute_name a, alert_type a)) new
               = map (\<lambda>ty. (device r, attribute_name r, ty))
                   (if i \<in> {5, 187, 196, 197, 198} \<and> 0 < v then [''CRITICAL_VALUE''] else [])"
proof (cases "i \<in> {5, 187, 196, 197, 198} \<and> 0 < v")
  case True
  let ?m = "''Non-zero critical value: '' @ py_str e (raw_value r)"
  from create_alert_accepted[OF assms(1), of w "device r" "attribute_name r"
      "''CRITICAL_VALUE''" ?m]
  obtain w' where "create_alert e w (device r) (attribute_name r) ''CRITICAL_VALUE'' ?m
        = (w', Inr ())"
    "health_alerts w' = health_alerts w @
       [\<lparr>alert_device = device r, alert_attribute_name = attribute_name r,
         alert_type = ''CRITICAL_VALUE'', message = ?m,
         alert_timestamp = datetime_now e (tick w), resolved = False\<rparr>]"
    by blast
  with True assms(2,3) show ?thesis
    by (simp add: critical_rule_def py_gt_def in_int_list_def critical_attrs_def)
next
  case False
  with assms(2,3) have "critical_rule e w r = (w, Inr ())"
    by (auto simp: critical_rule_def py_gt_def in_int_list_def critical_attrs_def split: bool.splits)
  with False show ?thesis by simp
qed

lemma temperature_rule_spec:
  assumes "\<forall>t. \<not> sqlite_fails e t"
    and "as_int (attribute_id r) = Some i" and "as_int (raw_value r) = Some v"
  shows "\<exists>w' new. temperature_rule e w r = (w', Inr ())
           \<and> health_alerts w' = health_alerts w @ new
           \<and> map (\<lambda>a. (alert_device a, alert_attribute_name a, alert_type a)) new
               = map (\<lambda>ty. (device r, attribute_name r, ty))
                   (if i \<in> {190, 194} \<and> 60 < v then [''HIGH_TEMPERATURE''] else [])"
proof (cases "i \<in> {190, 194} \<and> 60 < v")
  case True
  let ?m = "''High temperature: '' @ py_str e (raw_value r) @ [CHR 0xB0] @ ''C''"
  from create_alert_accepted[OF assms(1), of w "device r" "attribute_name r"
      "''HIGH_TEMPERATURE''" ?m]
  obtain w' where "create_alert e w (device r) (attribute_name r) ''HIGH_TEMPERATURE'' ?m
        = (w', Inr ())"
    "health_alerts w' = health_alerts w @
       [\<lparr>alert_device = device r, alert_attribute_name = attribute_name r,
         alert_type = ''HIGH_TEMPERATURE'', message = ?m,
         alert_timestamp = datetime_now e (tick w), resolved = False\<rparr>]"
    by blast
  with True assms(2,3) show ?thesis
    by (simp add: temperature_rule_def py_gt_def in_int_list_def)
next
  case False
  with assms(2,3) have "temperature_rule e w r = (w, Inr ())"
    by (auto simp: temperature_rule_def py_gt_def in_int_list_def split: bool.splits)
  with False show ?thesis by simp
qed

lemma check_attr_spec:
  assumes nf: "\<forall>t. \<not> sqlite_fails e t"
    and i: "as_int (attribute_id r) = Some i" and t: "as_int (threshold r) = Some t"
    and n: "as_int (normalized_value r) = Some n" and v: "as_int (raw_value r) = Some v"
  shows "\<exists>w' new. check_attr e w r = (w', Inr ())
           \<and> health_alerts w' = health_alerts w @ new
           \<and> map (\<lambda>a. (alert_device a, alert_attribute_name a, alert_type a)) new
               = map (\<lambda>ty. (device r, attribute_name r, ty)) (rules_spec i t n v)"
proof -
  let ?key = "\<lambda>a. (alert_device a, alert_attribute_name a, alert_type a)"
  let ?tag = "\<lambda>ty. (device r, attribute_name r, ty)"
  from threshold_rule_spec[OF nf t n, of w] obtain w1 new1 where
    1: "threshold_rule e w r = (w1, Inr ())" "health_alerts w1 = health_alerts w @ new1"
    "map ?key new1 = map ?tag (if 0 < t \<and> n \<le> t then [''THRESHOLD_VIOLATION''] else [])"
    by blast
  from critical_rule_spec[OF nf i v, of w1] obtain w2 new2 where
    2: "critical_rule e w1 r = (w2, Inr ())" "health_alerts w2 = health_alerts w1 @ new2"
    "map ?key new2
       = map ?tag (if i \<in> {5, 187, 196, 197, 198} \<and> 0 < v then [''CRITICAL_VALUE''] else [])"
    by blast
  from temperature_rule_spec[OF nf i v, of w2] obtain w3 new3 where
    3: "temperature_rule e w2 r = (w3, Inr ())" "health_alerts w3 = health_alerts w2 @ new3"
    "map ?key new3
       = map ?tag (if i \<in> {190, 194} \<and> 60 < v then [''HIGH_TEMPERATURE''] else [])"
    by blast
  have "check_attr e w r = (w3, Inr ())"
    using 1(1) 2(1) 3(1) by (simp add: check_attr_def)
  moreover have "health_alerts w3 = health_alerts w @ (new1 @ new2 @ new3)"
    using 1(2) 2(2) 3(2) by simp
  moreover have "map ?key (new1 @ new2 @ new3) = map ?tag (rules_spec i t n v)"
    unfolding rules_spec_def map_append 1(3) 2(3) 3(3) ..
  ultimately show ?thesis by blast
qed

text \<open>
  C4: the evaluator fires exactly the rules whose condition holds. For readings with
  numeric values and a store that accepts the writes, \<open>check_health_thresholds\<close> returns,
  and the alerts it appends are, reading by reading and in the order of the rules, one
  alert for each rule of the specification whose condition holds for that reading: the
  three rules are applied independently, so one reading can give up to three alerts.
\<close>

theorem check_health_thresholds_rules:
  assumes "\<forall>t. \<not> sqlite_fails e t"
    and "\<forall>r \<in> set rs. as_int (attribute_id r) \<noteq> None \<and> as_int (threshold r) \<noteq> None
           \<and> as_int (normalized_value r) \<noteq> None \<and> as_int (raw_value r) \<noteq> None"
  shows "\<exists>w' new. check_health_thresholds e w rs = (w', Inr ())
           \<and> health_alerts w' = health_alerts w @ new
           \<and> map (\<lambda>a. (alert_device a, alert_attribute_name a, alert_type a)) new
               = concat (map (\<lambda>r. map (\<lambda>ty. (device r, attribute_name r, ty))
                              (rules_spec (num (attribute_id r)) (num (threshold r))
                                 (num (normalized_value r)) (num (raw_value r)))) rs)"
  using assms(2)
proof (induction rs arbitrary: w)
  case Nil
  then show ?case by simp
next
  case (Cons r rs)
  let ?key = "\<lambda>a. (alert_device a, alert_attribute_name a, alert_type a)"
  let ?spec = "\<lambda>r. map (\<lambda>ty. (device r, attribute_name r, ty))
                  (rules_spec (num (attribute_id r)) (num (threshold r))
                     (num (normalized_value r)) (num (raw_value r)))"
  from Cons.prems obtain i t n v where
    iv: "as_int (attribute_id r) = Some i" "as_int (threshold r) = Some t"
    "as_int (normalized_value r) = Some n" "as_int (raw_value r) = Some v"
    by auto
  from check_attr_spec[OF assms(1) iv, of w] obtain w1 new1 where
    1: "check_attr e w r = (w1, Inr ())" "health_alerts w1 = health_alerts w @ new1"
    "map ?key new1 = map (\<lambda>ty. (device r, attribute_name r, ty)) (rules_spec i t n v)"
    by blast
  from Cons.IH[of w1] Cons.prems obtain w2 new2 where
    2: "check_health_thresholds e w1 rs = (w2, Inr ())"
    "health_alerts w2 = health_alerts w1 @ new2"
    "map ?key new2 = concat (map ?spec rs)"
    by auto
  have "check_health_thresholds e w (r # rs) = (w2, Inr ())"
    using 1(1) 2(1) by simp
  moreover have "health_alerts w2 = health_alerts w @ (new1 @ new2)"
    using 1(2) 2(2) by simp
  moreover have "map ?key (new1 @ new2) = concat (map ?spec (r # rs))"
    using 1(3) 2(3) iv by (simp add: num_def)
  ultimately show ?case by blast
qed

theorem check_health_thresholds_rules_witness:
  "\<exists>w' new. check_health_thresholds example_env fresh_world example_readings = (w', Inr ())
      \<and> health_alerts w' = health_alerts fresh_world @ new
      \<and> map (\<lambda>a. (alert_device a, alert_attribute_name a, alert_type a)) new
           = [(''/dev/sdb'', ''Reallocated_Sector_Ct'', ''CRITICAL_VALUE'')]"
proof -
  have nf: "\<forall>t. \<not> sqlite_fails example_env t"
    by (simp add: example_env_def)
  have numeric: "\<forall>r \<in> set example_readings. as_int (attribute_id r) \<noteq> None
           \<and> as_int (threshold r) \<noteq> None
           \<and> as_int (normalized_value r) \<noteq> None \<and> as_int (raw_value r) \<noteq> None"
    by (simp add: example_readings_def)
  have spec: "concat (map (\<lambda>r. map (\<lambda>ty. (device r, attribute_name r, ty))
                              (rules_spec (num (attribute_id r)) (num (threshold r))
                                 (num (normalized_value r)) (num (raw_value r))))
                       example_readings)
            = [(''/dev/sdb'', ''Reallocated_Sector_Ct'', ''CRITICAL_VALUE'')]"
    by (simp add: example_readings_def rules_spec_def num_def)
  from check_health_thresholds_rules[OF nf numeric, of fresh_world]
  show ?thesis unfolding spec .
qed

subsection \<open>The log of a cycle\<close>

lemma events_get_device_info:
  "filter cycle_event (logs (fst (get_device_info e w dev))) = filter cycle_event (logs w)"
  by (simp add: get_device_info_def run_process_def Let_def cycle_event_def
      split: proc_outcome.splits sum.splits prod.splits)

lemma events_check_smart_support:
  "filter cycle_event (logs (fst (check_smart_support e w dev))) = filter cycle_event (logs w)"
  by (simp add: check_smart_support_def run_process_def Let_def cycle_event_def
      split: proc_outcome.splits exn.splits)

lemma events_update_device_status:
  "filter cycle_event (logs (fst (update_device_status e w dev serial mdl m en)))
     = filter cycle_event (logs w)"
  by (simp add: update_device_status_def now_def transaction_def)

lemma events_collect_except:
  "filter cycle_event (logs (collect_except w dev ex)) = filter cycle_event (logs w)"
  by (cases ex) (simp_all add: cycle_event_def)

lemma events_collect_smart_data:
  "filter cycle_event (logs (fst (collect_smart_data e w dev))) = filter cycle_event (logs w)"
  by (simp add: collect_smart_data_def run_process_def Let_def events_collect_except
      cycle_event_def split: proc_outcome.splits sum.splits)

lemma events_store_smart_data:
  "filter cycle_event (logs (fst (store_smart_data e w rs serial mdl)))
     = filter cycle_event (logs w)"
  by (cases rs) (simp_all add: now_def transaction_def cycle_event_def)

lemma events_create_alert:
  "filter cycle_event (logs (fst (create_alert e w d a ty m))) = filter cycle_event (logs w)"
  by (simp add: create_alert_def now_def transaction_def cycle_event_def)

lemma events_threshold_rule:
  "filter cycle_event (logs (fst (threshold_rule e w r))) = filter cycle_event (logs w)"
  by (simp add: threshold_rule_def events_create_alert split: sum.splits bool.splits)

lemma events_critical_rule:
  "filter cycle_event (logs (fst (critical_rule e w r))) = filter cycle_event (logs w)"
  by (simp add: critical_rule_def events_create_alert split: sum.splits bool.splits)

lemma events_temperature_rule:
  "filter cycle_event (logs (fst (temperature_rule e w r))) = filter cycle_event (logs w)"
  by (simp add: temperature_rule_def events_create_alert split: sum.splits bool.splits)

lemma events_check_attr:
  "filter cycle_event (logs (fst (check_attr e w r))) = filter cycle_event (logs w)"
proof -
  obtain w1 r1 where 1: "threshold_rule e w r = (w1, r1)"
    by (cases "threshold_rule e w r")
  obtain w2 r2 where 2: "critical_rule e w1 r = (w2, r2)"
    by (cases "critical_rule e w1 r")
  from events_threshold_rule[of e w r] 1
  have a: "filter cycle_event (logs w1) = filter cycle_event (logs w)" by simp
  from events_critical_rule[of e w1 r] 2
  have b: "filter cycle_event (logs w2) = filter cycle_event (logs w1)" by simp
  show ?thesis
    using 1 2 a b events_temperature_rule[of e w2 r]
    by (simp add: check_attr_def split: sum.splits)
qed

lemma events_check_health_thresholds:
  "filter cycle_event (logs (fst (check_health_thresholds e w rs))) = filter cycle_event (logs w)"
proof (induction rs arbitrary: w)
  case Nil
  then show ?case by simp
next
  case (Cons r rs)
  obtain w1 r1 where 1: "check_attr e w r = (w1, r1)"
    by (cases "check_attr e w r")
  with events_check_attr[of e w r]
  have "filter cycle_event (logs w1) = filter cycle_event (logs w)" by simp
  with 1 Cons.IH[of w1] show ?case
    by (simp split: sum.splits)
qed

lemma events_process_device:
  "filter cycle_event (logs (fst (process_device e w dev)))
     = filter cycle_event (logs w) @ [ProcessingDevice dev]"
proof -
  let ?w0 = "logger w (ProcessingDevice dev)"
  obtain w1 serial mdl where 1: "get_device_info e ?w0 dev = (w1, (serial, mdl))"
    by (cases "get_device_info e ?w0 dev") auto
  obtain w2 enabled where 2: "check_smart_support e w1 dev = (w2, enabled)"
    by (cases "check_smart_support e w1 dev")
  obtain w3 r3 where 3: "update_device_status e w2 dev serial mdl True enabled = (w3, r3)"
    by (cases "update_device_status e w2 dev serial mdl True enabled")
  obtain w4 smart where 4: "collect_smart_data e w3 dev = (w4, smart)"
    by (cases "collect_smart_data e w3 dev")
  have s0: "filter cycle_event (logs ?w0) = filter cycle_event (logs w) @ [ProcessingDevice dev]"
    by (simp add: cycle_event_def)
  from events_get_device_info[of e ?w0 dev] 1
  have s1: "filter cycle_event (logs w1) = filter cycle_event (logs ?w0)" by simp
  from events_check_smart_support[of e w1 dev] 2
  have s2: "filter cycle_event (logs w2) = filter cycle_event (logs w1)" by simp
  from events_update_device_status[of e w2 dev serial mdl True enabled] 3
  have s3: "filter cycle_event (logs w3) = filter cycle_event (logs w2)" by simp
  from events_collect_smart_data[of e w3 dev] 4
  have s4: "filter cycle_event (logs w4) = filter cycle_event (logs w3)" by simp
  have store: "filter cycle_event (logs w5) = filter cycle_event (logs w4)"
    if "store_smart_data e w4 rs serial mdl = (w5, r5)" for rs w5 r5
    using events_store_smart_data[of e w4 rs serial mdl] that by simp
  have "filter cycle_event (logs (fst (process_device e w dev))) = filter cycle_event (logs w3)"
    using 1 2 3 4 s4
    by (auto simp: process_device_def events_check_health_thresholds cycle_event_def
        split: sum.splits prod.splits dest!: store)
  with s0 s1 s2 s3 show ?thesis by simp
qed

lemma events_devices_loop:
  "\<exists>evs. filter cycle_event (logs (devices_loop e w devs)) = filter cycle_event (logs w) @ evs
         \<and> filter is_processing evs = map ProcessingDevice devs"
proof (induction devs arbitrary: w)
  case Nil
  then show ?case by simp
next
  case (Cons dev devs)
  obtain w1 r1 where 1: "process_device e w dev = (w1, r1)"
    by (cases "process_device e w dev")
  with events_process_device[of e w dev]
  have p: "filter cycle_event (logs w1) = filter cycle_event (logs w) @ [ProcessingDevice dev]"
    by simp
  show ?case
  proof (cases r1)
    case (Inl ex)
    let ?w2 = "logger w1 (ErrorProcessingDevice dev ex)"
    from Cons.IH[of ?w2] obtain evs where
      "filter cycle_event (logs (devices_loop e ?w2 devs)) = filter cycle_event (logs ?w2) @ evs"
      "filter is_processing evs = map ProcessingDevice devs"
      by blast
    with 1 Inl p have
      "filter cycle_event (logs (devices_loop e w (dev # devs)))
         = filter cycle_event (logs w) @ (ProcessingDevice dev # ErrorProcessingDevice dev ex # evs)
       \<and> filter is_processing (ProcessingDevice dev # ErrorProcessingDevice dev ex # evs)
         = map ProcessingDevice (dev # devs)"
      by (simp add: cycle_event_def is_processing_def)
    then show ?thesis by blast
  next
    case (Inr u)
    from Cons.IH[of w1] obtain evs where
      "filter cycle_event (logs (devices_loop e w1 devs)) = filter cycle_event (logs w1) @ evs"
      "filter is_processing evs = map ProcessingDevice devs"
      by blast
    with 1 Inr p have
      "filter cycle_event (logs (devices_loop e w (dev # devs)))
         = filter cycle_event (logs w) @ (ProcessingDevice dev # evs)
       \<and> filter is_processing (ProcessingDevice dev # evs) = map ProcessingDevice (dev # devs)"
      by (simp add: is_processing_def)
    then show ?thesis by blast
  qed
qed






subsection \<open>Failures of the store\<close>

lemma tick_get_device_info: "tick (fst (get_device_info e w dev)) = Suc (tick w)"
  by (simp add: get_device_info_def run_process_def Let_def
      split: proc_outcome.splits sum.splits prod.splits)

lemma tick_check_smart_support: "tick (fst (check_smart_support e w dev)) = Suc (tick w)"
  by (simp add: check_smart_support_def run_process_def Let_def
      split: proc_outcome.splits exn.splits)

text \<open>A rejected transaction raises and leaves the state as it was, but for the tick.\<close>

lemma update_device_status_rejected:
  assumes "sqlite_fails e (tick w + 2)"
  shows "update_device_status e w dev serial mdl m en
           = (w\<lparr>tick := tick w + 3\<rparr>, Inl SqliteError)"
  using assms
  by (simp add: update_device_status_def now_def transaction_def eval_nat_numeral)

lemma store_smart_data_rejected:
  assumes "rs \<noteq> []" and "sqlite_fails e (tick w + 1)"
  shows "store_smart_data e w rs serial mdl = (w\<lparr>tick := tick w + 2\<rparr>, Inl SqliteError)"
  using assms
  by (cases rs) (simp_all add: now_def transaction_def eval_nat_numeral)

lemma create_alert_rejected:
  assumes "sqlite_fails e (tick w + 1)"
  shows "create_alert e w d a ty m = (w\<lparr>tick := tick w + 2\<rparr>, Inl SqliteError)"
  using assms
  by (simp add: create_alert_def now_def transaction_def eval_nat_numeral)

lemma create_alert_written:
  assumes "\<not> sqlite_fails e (tick w + 1)"
  shows "\<exists>w'. create_alert e w d a ty m = (w', Inr ())
           \<and> tick w' = tick w + 2
           \<and> health_alerts w' = health_alerts w @
                [\<lparr>alert_device = d, alert_attribute_name = a, alert_type = ty, message = m,
                  alert_timestamp = datetime_now e (tick w), resolved = False\<rparr>]
           \<and> smart_data w' = smart_data w \<and> device_status w' = device_status w
           \<and> trace w' = trace w"
  using assms
  by (simp add: create_alert_def now_def transaction_def eval_nat_numeral)

text \<open>
  The evaluator writes the alerts that are due one after the other: when the first \<open>k\<close>
  writes are accepted and the next is rejected, it raises with exactly those \<open>k\<close> alerts
  written.
\<close>

lemma write_alerts_rejected:
  assumes "k < length alerts"
    and "\<forall>j<k. \<not> sqlite_fails e (tick w + 2 * j + 1)"
    and "sqlite_fails e (tick w + 2 * k + 1)"
  shows "\<exists>w' new. write_alerts e w alerts = (w', Inl SqliteError)
           \<and> tick w' = tick w + 2 * k + 2
           \<and> health_alerts w' = health_alerts w @ new
           \<and> map (\<lambda>a. (alert_device a, alert_attribute_name a, alert_type a, message a)) new
               = take k alerts
           \<and> smart_data w' = smart_data w \<and> device_status w' = device_status w
           \<and> trace w' = trace w"
  using assms
proof (induction alerts arbitrary: w k)
  case Nil
  then show ?case by simp
next
  case (Cons x alerts)
  obtain d a ty m where x: "x = (d, a, ty, m)"
    by (cases x) auto
  show ?case
  proof (cases k)
    case 0
    with Cons.prems have "sqlite_fails e (tick w + 1)" by simp
    from create_alert_rejected[OF this, of d a ty m] x 0 show ?thesis
      by simp
  next
    case (Suc k')
    from Cons.prems(2) Suc have "\<not> sqlite_fails e (tick w + 2 * 0 + 1)"
      by blast
    then have "\<not> sqlite_fails e (tick w + 1)" by simp
    from create_alert_written[OF this, of d a ty m] obtain w1 where
      c: "create_alert e w d a ty m = (w1, Inr ())" and
      t: "tick w1 = tick w + 2" and
      h: "health_alerts w1 = health_alerts w @
            [\<lparr>alert_device = d, alert_attribute_name = a, alert_type = ty, message = m,
              alert_timestamp = datetime_now e (tick w), resolved = False\<rparr>]" and
      f: "smart_data w1 = smart_data w" "device_status w1 = device_status w"
         "trace w1 = trace w"
      by blast
    have k': "k' < length alerts"
      using Cons.prems(1) Suc by simp
    have ok: "\<forall>j<k'. \<not> sqlite_fails e (tick w1 + 2 * j + 1)"
    proof (intro allI impI)
      fix j assume "j < k'"
      then have "Suc j < k" using Suc by simp
      have eq: "tick w + 2 * Suc j + 1 = tick w1 + 2 * j + 1" using t by simp
      from Cons.prems(2) \<open>Suc j < k\<close> have "\<not> sqlite_fails e (tick w + 2 * Suc j + 1)"
        by blast
      then show "\<not> sqlite_fails e (tick w1 + 2 * j + 1)" unfolding eq .
    qed
    have eq: "tick w + 2 * k + 1 = tick w1 + 2 * k' + 1" using t Suc by simp
    from Cons.prems(3) have bad: "sqlite_fails e (tick w1 + 2 * k' + 1)" unfolding eq .
    from Cons.IH[OF k' ok bad] obtain w' new where
      r: "write_alerts e w1 alerts = (w', Inl SqliteError)"
      "tick w' = tick w1 + 2 * k' + 2"
      "health_alerts w' = health_alerts w1 @ new"
      "map (\<lambda>a. (alert_device a, alert_attribute_name a, alert_type a, message a)) new
         = take k' alerts"
      "smart_data w' = smart_data w1" "device_status w' = device_status w1"
      "trace w' = trace w1"
      by blast
    let ?row = "\<lparr>alert_device = d, alert_attribute_name = a, alert_type = ty, message = m,
              alert_timestamp = datetime_now e (tick w), resolved = False\<rparr>"
    have "write_alerts e w (x # alerts) = (w', Inl SqliteError)"
      using x c r(1) by simp
    moreover have "tick w' = tick w + 2 * k + 2"
      using r(2) t Suc by simp
    moreover have "health_alerts w' = health_alerts w @ (?row # new)"
      using r(3) h by simp
    moreover have
      "map (\<lambda>a. (alert_device a, alert_attribute_name a, alert_type a, message a)) (?row # new)
         = take k (x # alerts)"
      using r(4) x Suc by simp
    moreover have "smart_data w' = smart_data w" "device_status w' = device_status w"
      "trace w' = trace w"
      using r(5-7) f by simp_all
    ultimately show ?thesis by blast
  qed
qed

lemma write_alerts_append:
  "write_alerts e w (xs @ ys)
     = (case write_alerts e w xs of
          (w1, Inl ex) \<Rightarrow> (w1, Inl ex)
        | (w1, Inr u) \<Rightarrow> write_alerts e w1 ys)"
  by (induction xs arbitrary: w) (auto split: prod.splits sum.splits)

lemma create_alert_as_write:
  "create_alert e w d a ty m = write_alerts e w [(d, a, ty, m)]"
  by (cases "create_alert e w d a ty m") (auto split: sum.splits)

lemma threshold_rule_writes:
  assumes "as_int (threshold r) = Some t" and "as_int (normalized_value r) = Some n"
  shows "threshold_rule e w r
     = write_alerts e w
         (if 0 < t \<and> n \<le> t
          then [(device r, attribute_name r, ''THRESHOLD_VIOLATION'',
                 ''Value '' @ py_str e (normalized_value r) @ '' below threshold '' @
                 py_str e (threshold r))]
          else [])"
proof (cases "0 < t \<and> n \<le> t")
  case True
  with assms show ?thesis
    by (simp add: threshold_rule_def py_gt_def py_le_def create_alert_as_write
        del: write_alerts.simps)
next
  case False
  with assms show ?thesis
    by (auto simp: threshold_rule_def py_gt_def py_le_def split: bool.splits)
qed

lemma critical_rule_writes:
  assumes "as_int (attribute_id r) = Some i" and "as_int (raw_value r) = Some v"
  shows "critical_rule e w r
     = write_alerts e w
         (if i \<in> set critical_attrs \<and> 0 < v
          then [(device r, attribute_name r, ''CRITICAL_VALUE'',
                 ''Non-zero critical value: '' @ py_str e (raw_value r))]
          else [])"
proof (cases "i \<in> set critical_attrs \<and> 0 < v")
  case True
  with assms show ?thesis
    by (simp add: critical_rule_def py_gt_def in_int_list_def create_alert_as_write
        del: write_alerts.simps)
next
  case False
  with assms show ?thesis
    by (auto simp: critical_rule_def py_gt_def in_int_list_def split: bool.splits)
qed

lemma temperature_rule_writes:
  assumes "as_int (attribute_id r) = Some i" and "as_int (raw_value r) = Some v"
  shows "temperature_rule e w r
     = write_alerts e w
         (if i \<in> {190, 194} \<and> 60 < v
          then [(device r, attribute_name r, ''HIGH_TEMPERATURE'',
                 ''High temperature: '' @ py_str e (raw_value r) @ [CHR 0xB0] @ ''C'')]
          else [])"
proof (cases "i \<in> {190, 194} \<and> 60 < v")
  case True
  with assms show ?thesis
    by (simp add: temperature_rule_def py_gt_def in_int_list_def create_alert_as_write
        del: write_alerts.simps)
next
  case False
  with assms show ?thesis
    by (auto simp: temperature_rule_def py_gt_def in_int_list_def split: bool.splits)
qed

lemma check_attr_writes:
  assumes i: "as_int (attribute_id r) = Some i" and t: "as_int (threshold r) = Some t"
    and n: "as_int (normalized_value r) = Some n" and v: "as_int (raw_value r) = Some v"
  shows "check_attr e w r = write_alerts e w (due_alerts e r)"
proof -
  have nums: "num (attribute_id r) = i" "num (threshold r) = t"
    "num (normalized_value r) = n" "num (raw_value r) = v"
    using assms by (simp_all add: num_def)
  show ?thesis
    unfolding check_attr_def due_alerts_def nums write_alerts_append
      threshold_rule_writes[OF t n] critical_rule_writes[OF i v]
      temperature_rule_writes[OF i v]
    by (simp split: prod.splits sum.splits)
qed

lemma check_health_thresholds_writes:
  assumes "\<forall>r \<in> set rs. as_int (attribute_id r) \<noteq> None \<and> as_int (threshold r) \<noteq> None
           \<and> as_int (normalized_value r) \<noteq> None \<and> as_int (raw_value r) \<noteq> None"
  shows "check_health_thresholds e w rs = write_alerts e w (concat (map (due_alerts e) rs))"
  using assms
proof (induction rs arbitrary: w)
  case Nil
  then show ?case by simp
next
  case (Cons r rs)
  from Cons.prems obtain i t n v where
    "as_int (attribute_id r) = Some i" "as_int (threshold r) = Some t"
    "as_int (normalized_value r) = Some n" "as_int (raw_value r) = Some v"
    by auto
  then have a: "check_attr e w r = write_alerts e w (due_alerts e r)" for w
    by (rule check_attr_writes)
  have b: "check_health_thresholds e w1 rs = write_alerts e w1 (concat (map (due_alerts e) rs))"
    for w1
    using Cons.IH[of w1] Cons.prems by simp
  show ?case
    by (simp add: a b write_alerts_append split: prod.splits sum.splits)
qed

lemma due_alerts_types:
  "map (\<lambda>x. (fst x, fst (snd x), fst (snd (snd x)))) (due_alerts e r)
     = map (\<lambda>ty. (device r, attribute_name r, ty))
         (rules_spec (num (attribute_id r)) (num (threshold r))
            (num (normalized_value r)) (num (raw_value r)))"
  by (simp add: due_alerts_def rules_spec_def critical_attrs_def)

lemma due_alerts_all_types:
  "map (\<lambda>x. (fst x, fst (snd x), fst (snd (snd x)))) (concat (map (due_alerts e) rs))
     = concat (map (\<lambda>r. map (\<lambda>ty. (device r, attribute_name r, ty))
                          (rules_spec (num (attribute_id r)) (num (threshold r))
                             (num (normalized_value r)) (num (raw_value r)))) rs)"
  by (induction rs) (simp_all add: due_alerts_types)

lemma status_write_rejected:
  assumes "get_device_info e (logger w (ProcessingDevice dev)) dev = (w1, (serial, mdl))"
    and "check_smart_support e w1 dev = (w2, enabled)"
    and "sqlite_fails e (tick w2 + 2)"
  shows "process_device e w dev = (w2\<lparr>tick := tick w2 + 3\<rparr>, Inl SqliteError)"
  using assms update_device_status_rejected[of e w2 dev serial mdl True enabled]
  by (simp add: process_device_def)

lemma readings_write_rejected:
  assumes "get_device_info e (logger w (ProcessingDevice dev)) dev = (w1, (serial, mdl))"
    and "check_smart_support e w1 dev = (w2, enabled)"
    and "update_device_status e w2 dev serial mdl True enabled = (w3, Inr ())" and "enabled"
    and "collect_smart_data e w3 dev = (w4, smart)" and "truthy smart"
    and "parse_smart_attributes e smart dev = Inr attributes" and "attributes \<noteq> []"
    and "sqlite_fails e (tick w4 + 1)"
  shows "process_device e w dev = (w4\<lparr>tick := tick w4 + 2\<rparr>, Inl SqliteError)"
  using assms store_smart_data_rejected[of attributes e w4 serial mdl]
  by (simp add: process_device_def)

lemma alert_write_rejected:
  assumes "get_device_info e (logger w (ProcessingDevice dev)) dev = (w1, (serial, mdl))"
    and "check_smart_support e w1 dev = (w2, enabled)"
    and "update_device_status e w2 dev serial mdl True enabled = (w3, Inr ())" and "enabled"
    and "collect_smart_data e w3 dev = (w4, smart)" and "truthy smart"
    and "parse_smart_attributes e smart dev = Inr attributes" and "attributes \<noteq> []"
    and "store_smart_data e w4 attributes serial mdl = (w5, Inr ())"
    and numeric: "(\<forall>r \<in> set attributes. as_int (attribute_id r) \<noteq> None \<and> as_int (threshold r) \<noteq> None
              \<and> as_int (normalized_value r) \<noteq> None \<and> as_int (raw_value r) \<noteq> None)"
    and k: "k < length (concat (map (\<lambda>r. map (\<lambda>ty. (device r, attribute_name r, ty))
                                (rules_spec (num (attribute_id r)) (num (threshold r))
                                   (num (normalized_value r)) (num (raw_value r)))) attributes))"
    and ok: "\<forall>j<k. \<not> sqlite_fails e (tick w5 + 2 * j + 1)"
    and bad: "sqlite_fails e (tick w5 + 2 * k + 1)"
  shows "\<exists>w6 new. process_device e w dev = (w6, Inl SqliteError)
              \<and> health_alerts w6 = health_alerts w5 @ new
              \<and> map (\<lambda>a. (alert_device a, alert_attribute_name a, alert_type a)) new = take k (concat (map (\<lambda>r. map (\<lambda>ty. (device r, attribute_name r, ty))
                                (rules_spec (num (attribute_id r)) (num (threshold r))
                                   (num (normalized_value r)) (num (raw_value r)))) attributes))
              \<and> tick w6 = tick w5 + 2 * k + 2
              \<and> smart_data w6 = smart_data w5 \<and> device_status w6 = device_status w5
              \<and> trace w6 = trace w5"
proof -
  let ?all = "concat (map (due_alerts e) attributes)"
  have types: "map (\<lambda>x. (fst x, fst (snd x), fst (snd (snd x)))) ?all
      = concat (map (\<lambda>r. map (\<lambda>ty. (device r, attribute_name r, ty))
                                (rules_spec (num (attribute_id r)) (num (threshold r))
                                   (num (normalized_value r)) (num (raw_value r)))) attributes)"
    by (rule due_alerts_all_types)
  have "length ?all = length (map (\<lambda>x. (fst x, fst (snd x), fst (snd (snd x)))) ?all)"
    by simp
  with k have k': "k < length ?all"
    unfolding types by simp
  from write_alerts_rejected[OF k' ok bad] obtain w6 new where
    r: "write_alerts e w5 ?all = (w6, Inl SqliteError)"
    "tick w6 = tick w5 + 2 * k + 2"
    "health_alerts w6 = health_alerts w5 @ new"
    "map (\<lambda>a. (alert_device a, alert_attribute_name a, alert_type a, message a)) new
       = take k ?all"
    "smart_data w6 = smart_data w5" "device_status w6 = device_status w5"
    "trace w6 = trace w5"
    by blast
  have "check_health_thresholds e w5 attributes = (w6, Inl SqliteError)"
    using check_health_thresholds_writes[OF numeric, of e w5] r(1) by simp
  with assms(1-9) have p: "process_device e w dev = (w6, Inl SqliteError)"
    by (simp add: process_device_def)
  have "map (\<lambda>a. (alert_device a, alert_attribute_name a, alert_type a)) new
      = map (\<lambda>x. (fst x, fst (snd x), fst (snd (snd x))))
          (map (\<lambda>a. (alert_device a, alert_attribute_name a, alert_type a, message a)) new)"
    by simp
  also have "\<dots> = take k (map (\<lambda>x. (fst x, fst (snd x), fst (snd (snd x)))) ?all)"
    unfolding r(4) by (simp add: take_map)
  finally have "map (\<lambda>a. (alert_device a, alert_attribute_name a, alert_type a)) new = take k (concat (map (\<lambda>r. map (\<lambda>ty. (device r, attribute_name r, ty))
                                (rules_spec (num (attribute_id r)) (num (threshold r))
                                   (num (normalized_value r)) (num (raw_value r)))) attributes))"
    unfolding types .
  with p r(2,3,5,6,7) show ?thesis by blast
qed

lemma loop_catches:
  assumes "process_device e w dev = (w', Inl ex)"
  shows "devices_loop e w (dev # devs)
            = devices_loop e (logger w' (ErrorProcessingDevice dev ex)) devs"
  using assms by simp

lemma loop_catches_events:
  assumes p: "process_device e w dev = (w', Inl ex)"
  shows "\<exists>evs. filter cycle_event (logs (devices_loop e w (dev # devs)))
                    = filter cycle_event (logs w)
                        @ ProcessingDevice dev # ErrorProcessingDevice dev ex # evs
                 \<and> filter is_processing evs = map ProcessingDevice devs"
proof -
  let ?w2 = "logger w' (ErrorProcessingDevice dev ex)"
  from events_process_device[of e w dev] p
  have "filter cycle_event (logs w') = filter cycle_event (logs w) @ [ProcessingDevice dev]"
    by simp
  then have "filter cycle_event (logs ?w2)
      = filter cycle_event (logs w) @ [ProcessingDevice dev, ErrorProcessingDevice dev ex]"
    by (simp add: cycle_event_def)
  moreover from events_devices_loop[of e ?w2 devs] obtain evs where
    "filter cycle_event (logs (devices_loop e ?w2 devs)) = filter cycle_event (logs ?w2) @ evs"
    "filter is_processing evs = map ProcessingDevice devs"
    by blast
  ultimately show ?thesis
    unfolding loop_catches[OF p] by auto
qed

text \<open>
  C7, as stated, fails: a write error of the store is an \<open>Exception\<close>, and the \<open>except
  Exception\<close> clause around the steps of a device catches it. In the sample run the
  write of the status of \<open>/dev/sda\<close> fails; the failure is logged as an error of
  \<open>/dev/sda\<close>, \<open>/dev/sdb\<close> is processed after it (its readings are stored and its alert
  raised), and the cycle completes.
\<close>

theorem store_failure_does_not_abort_cycle:
  "sqlite_fails failing_store_env 5
   \<and> logs (run_monitoring_cycle failing_store_env fresh_world)
       = [StartingCycle,
          FoundMountedDrives 2 [''/dev/sda'', ''/dev/sdb''],
          ProcessingDevice ''/dev/sda'',
          ErrorProcessingDevice ''/dev/sda'' SqliteError,
          ProcessingDevice ''/dev/sdb'',
          StoredSmartAttributes 2 ''/dev/sdb'',
          HealthAlert ''/dev/sdb'' ''Reallocated_Sector_Ct'' ''Non-zero critical value: 2'',
          CycleCompleted]
   \<and> device_status (run_monitoring_cycle failing_store_env fresh_world) ''/dev/sda'' = None
   \<and> device_status (run_monitoring_cycle failing_store_env fresh_world) ''/dev/sdb'' \<noteq> None"
  by code_simp

text \<open>
  C7, amended: a failure of the store is caught at the boundary of the device, whichever
  of the three writes fails. Let \<open>w2\<close> be the state after the two probes of the device.

  \<^item> Status: when the transaction of \<open>update_device_status\<close> is rejected, the steps of
    the device end with the \<open>sqlite3\<close> error in the state \<open>w2\<close> (but for the tick): the
    collector is not run and nothing is written.
  \<^item> Readings: when the transaction of \<open>store_smart_data\<close> is rejected, they end with
    the error in the state \<open>w4\<close> after the collector (but for the tick): no reading is
    stored and the evaluator is not run.
  \<^item> Alerts: when, for readings with numeric values, the first \<open>k\<close> writes of the
    evaluator are accepted and the next one is rejected, they end with the error, and
    exactly the first \<open>k\<close> of the alerts that are due have been written: the other alerts
    are skipped.

  In each case, and for any exception that leaves the steps of a device, the loop logs
  the error for that device and goes on from that state: every remaining device is taken
  up, in order.
\<close>

theorem store_failure_is_caught:
  assumes "get_device_info e (logger w (ProcessingDevice dev)) dev = (w1, (serial, mdl))"
    and "check_smart_support e w1 dev = (w2, enabled)"
  shows
   "(sqlite_fails e (tick w2 + 2) \<longrightarrow>
        process_device e w dev = (w2\<lparr>tick := tick w2 + 3\<rparr>, Inl SqliteError)
      \<and> devices_loop e w (dev # devs)
             = devices_loop e
                 (logger (w2\<lparr>tick := tick w2 + 3\<rparr>) (ErrorProcessingDevice dev SqliteError)) devs)
    \<and> (update_device_status e w2 dev serial mdl True enabled = (w3, Inr ()) \<and> enabled
        \<and> collect_smart_data e w3 dev = (w4, smart) \<and> truthy smart
        \<and> parse_smart_attributes e smart dev = Inr attributes \<and> attributes \<noteq> [] \<longrightarrow>
        (sqlite_fails e (tick w4 + 1) \<longrightarrow>
           process_device e w dev = (w4\<lparr>tick := tick w4 + 2\<rparr>, Inl SqliteError)
         \<and> devices_loop e w (dev # devs)
             = devices_loop e
                 (logger (w4\<lparr>tick := tick w4 + 2\<rparr>) (ErrorProcessingDevice dev SqliteError)) devs)
      \<and> (store_smart_data e w4 attributes serial mdl = (w5, Inr ())
           \<and> (\<forall>r \<in> set attributes. as_int (attribute_id r) \<noteq> None \<and> as_int (threshold r) \<noteq> None
              \<and> as_int (normalized_value r) \<noteq> None \<and> as_int (raw_value r) \<noteq> None)
           \<and> k < length (concat (map (\<lambda>r. map (\<lambda>ty. (device r, attribute_name r, ty))
                                (rules_spec (num (attribute_id r)) (num (threshold r))
                                   (num (normalized_value r)) (num (raw_value r)))) attributes))
           \<and> (\<forall>j<k. \<not> sqlite_fails e (tick w5 + 2 * j + 1))
           \<and> sqlite_fails e (tick w5 + 2 * k + 1) \<longrightarrow>
           (\<exists>w6 new. process_device e w dev = (w6, Inl SqliteError)
              \<and> health_alerts w6 = health_alerts w5 @ new
              \<and> map (\<lambda>a. (alert_device a, alert_attribute_name a, alert_type a)) new = take k (concat (map (\<lambda>r. map (\<lambda>ty. (device r, attribute_name r, ty))
                                (rules_spec (num (attribute_id r)) (num (threshold r))
                                   (num (normalized_value r)) (num (raw_value r)))) attributes))
              \<and> tick w6 = tick w5 + 2 * k + 2
              \<and> smart_data w6 = smart_data w5 \<and> device_status w6 = device_status w5
              \<and> trace w6 = trace w5
              \<and> devices_loop e w (dev # devs)
                  = devices_loop e (logger w6 (ErrorProcessingDevice dev SqliteError)) devs)))
    \<and> (\<forall>w' ex. process_device e w dev = (w', Inl ex) \<longrightarrow>
          devices_loop e w (dev # devs)
            = devices_loop e (logger w' (ErrorProcessingDevice dev ex)) devs
        \<and> (\<exists>evs. filter cycle_event (logs (devices_loop e w (dev # devs)))
                    = filter cycle_event (logs w)
                        @ ProcessingDevice dev # ErrorProcessingDevice dev ex # evs
                 \<and> filter is_processing evs = map ProcessingDevice devs))"
proof (intro conjI impI allI)
  assume s: "sqlite_fails e (tick w2 + 2)"
  from status_write_rejected[OF assms s]
  show p: "process_device e w dev = (w2\<lparr>tick := tick w2 + 3\<rparr>, Inl SqliteError)" .
  from loop_catches[OF p]
  show "devices_loop e w (dev # devs)
             = devices_loop e
                 (logger (w2\<lparr>tick := tick w2 + 3\<rparr>) (ErrorProcessingDevice dev SqliteError)) devs" .
next
  assume r: "update_device_status e w2 dev serial mdl True enabled = (w3, Inr ()) \<and> enabled
        \<and> collect_smart_data e w3 dev = (w4, smart) \<and> truthy smart
        \<and> parse_smart_attributes e smart dev = Inr attributes \<and> attributes \<noteq> []"
    and f: "sqlite_fails e (tick w4 + 1)"
  from r have r': "update_device_status e w2 dev serial mdl True enabled = (w3, Inr ())"
    "enabled" "collect_smart_data e w3 dev = (w4, smart)" "truthy smart"
    "parse_smart_attributes e smart dev = Inr attributes" "attributes \<noteq> []"
    by blast+
  from readings_write_rejected[OF assms r' f]
  show p: "process_device e w dev = (w4\<lparr>tick := tick w4 + 2\<rparr>, Inl SqliteError)" .
  from loop_catches[OF p]
  show "devices_loop e w (dev # devs)
             = devices_loop e
                 (logger (w4\<lparr>tick := tick w4 + 2\<rparr>) (ErrorProcessingDevice dev SqliteError)) devs" .
next
  assume r: "update_device_status e w2 dev serial mdl True enabled = (w3, Inr ()) \<and> enabled
        \<and> collect_smart_data e w3 dev = (w4, smart) \<and> truthy smart
        \<and> parse_smart_attributes e smart dev = Inr attributes \<and> attributes \<noteq> []"
    and a: "store_smart_data e w4 attributes serial mdl = (w5, Inr ())
           \<and> (\<forall>r \<in> set attributes. as_int (attribute_id r) \<noteq> None \<and> as_int (threshold r) \<noteq> None
              \<and> as_int (normalized_value r) \<noteq> None \<and> as_int (raw_value r) \<noteq> None)
           \<and> k < length (concat (map (\<lambda>r. map (\<lambda>ty. (device r, attribute_name r, ty))
                                (rules_spec (num (attribute_id r)) (num (threshold r))
                                   (num (normalized_value r)) (num (raw_value r)))) attributes))
           \<and> (\<forall>j<k. \<not> sqlite_fails e (tick w5 + 2 * j + 1))
           \<and> sqlite_fails e (tick w5 + 2 * k + 1)"
  from r have r': "update_device_status e w2 dev serial mdl True enabled = (w3, Inr ())"
    "enabled" "collect_smart_data e w3 dev = (w4, smart)" "truthy smart"
    "parse_smart_attributes e smart dev = Inr attributes" "attributes \<noteq> []"
    by blast+
  from a have st: "store_smart_data e w4 attributes serial mdl = (w5, Inr ())"
    and numeric: "(\<forall>r \<in> set attributes. as_int (attribute_id r) \<noteq> None \<and> as_int (threshold r) \<noteq> None
              \<and> as_int (normalized_value r) \<noteq> None \<and> as_int (raw_value r) \<noteq> None)"
    and k: "k < length (concat (map (\<lambda>r. map (\<lambda>ty. (device r, attribute_name r, ty))
                                (rules_spec (num (attribute_id r)) (num (threshold r))
                                   (num (normalized_value r)) (num (raw_value r)))) attributes))"
    and ok: "\<forall>j<k. \<not> sqlite_fails e (tick w5 + 2 * j + 1)"
    and bad: "sqlite_fails e (tick w5 + 2 * k + 1)"
    by blast+
  from alert_write_rejected[OF assms r' st numeric k ok bad] obtain w6 new where
    p: "process_device e w dev = (w6, Inl SqliteError)" and
    rest: "health_alerts w6 = health_alerts w5 @ new"
      "map (\<lambda>a. (alert_device a, alert_attribute_name a, alert_type a)) new = take k (concat (map (\<lambda>r. map (\<lambda>ty. (device r, attribute_name r, ty))
                                (rules_spec (num (attribute_id r)) (num (threshold r))
                                   (num (normalized_value r)) (num (raw_value r)))) attributes))"
      "tick w6 = tick w5 + 2 * k + 2"
      "smart_data w6 = smart_data w5" "device_status w6 = device_status w5"
      "trace w6 = trace w5"
    by blast
  from p rest loop_catches[OF p, of devs]
  show "\<exists>w6 new. process_device e w dev = (w6, Inl SqliteError)
              \<and> health_alerts w6 = health_alerts w5 @ new
              \<and> map (\<lambda>a. (alert_device a, alert_attribute_name a, alert_type a)) new = take k (concat (map (\<lambda>r. map (\<lambda>ty. (device r, attribute_name r, ty))
                                (rules_spec (num (attribute_id r)) (num (threshold r))
                                   (num (normalized_value r)) (num (raw_value r)))) attributes))
              \<and> tick w6 = tick w5 + 2 * k + 2
              \<and> smart_data w6 = smart_data w5 \<and> device_status w6 = device_status w5
              \<and> trace w6 = trace w5
              \<and> devices_loop e w (dev # devs)
                  = devices_loop e (logger w6 (ErrorProcessingDevice dev SqliteError)) devs"
    by blast
next
  fix w' ex
  assume p: "process_device e w dev = (w', Inl ex)"
  from loop_catches[OF p]
  show "devices_loop e w (dev # devs)
            = devices_loop e (logger w' (ErrorProcessingDevice dev ex)) devs" .
  from loop_catches_events[OF p]
  show "\<exists>evs. filter cycle_event (logs (devices_loop e w (dev # devs)))
                    = filter cycle_event (logs w)
                        @ ProcessingDevice dev # ErrorProcessingDevice dev ex # evs
                 \<and> filter is_processing evs = map ProcessingDevice devs" .
qed

theorem store_failure_is_caught_witness:
  "snd (process_device (rejecting_env 4) fresh_world ''/dev/sdb'') = Inl SqliteError
   \<and> snd (process_device (rejecting_env 8) fresh_world ''/dev/sdb'') = Inl SqliteError
   \<and> snd (process_device (rejecting_env 10) fresh_world ''/dev/sdb'') = Inl SqliteError
   \<and> smart_data (fst (process_device (rejecting_env 8) fresh_world ''/dev/sdb'')) = []
   \<and> length (smart_data (fst (process_device (rejecting_env 10) fresh_world ''/dev/sdb''))) = 2
   \<and> health_alerts (fst (process_device (rejecting_env 10) fresh_world ''/dev/sdb'')) = []
   \<and> snd (process_device example_env fresh_world ''/dev/sdb'') = Inr ()"
proof -
  have status: "snd (process_device (rejecting_env 4) fresh_world ''/dev/sdb'') = Inl SqliteError"
  proof -
    let ?e = "rejecting_env 4"
    let ?i = "get_device_info ?e (logger fresh_world (ProcessingDevice ''/dev/sdb'')) ''/dev/sdb''"
    let ?w1 = "fst ?i" and ?serial = "fst (snd ?i)" and ?mdl = "snd (snd ?i)"
    let ?s = "check_smart_support ?e ?w1 ''/dev/sdb''"
    let ?w2 = "fst ?s" and ?enabled = "snd ?s"
    have info: "?i = (?w1, (?serial, ?mdl))" by simp
    have support: "?s = (?w2, ?enabled)" by simp
    note t = store_failure_is_caught[OF info support, where devs = "[]"]
    have f: "sqlite_fails ?e (tick ?w2 + 2)" by code_simp
    from t[THEN conjunct1, THEN mp, OF f, THEN conjunct1] show ?thesis by simp
  qed
  have readings: "snd (process_device (rejecting_env 8) fresh_world ''/dev/sdb'') = Inl SqliteError"
  proof -
    let ?e = "rejecting_env 8"
    let ?i = "get_device_info ?e (logger fresh_world (ProcessingDevice ''/dev/sdb'')) ''/dev/sdb''"
    let ?w1 = "fst ?i" and ?serial = "fst (snd ?i)" and ?mdl = "snd (snd ?i)"
    let ?s = "check_smart_support ?e ?w1 ''/dev/sdb''"
    let ?w2 = "fst ?s" and ?enabled = "snd ?s"
    have info: "?i = (?w1, (?serial, ?mdl))" by simp
    have support: "?s = (?w2, ?enabled)" by simp
    note t = store_failure_is_caught[OF info support, where devs = "[]"]
    let ?u = "update_device_status ?e ?w2 ''/dev/sdb'' ?serial ?mdl True ?enabled"
    let ?w3 = "fst ?u"
    let ?c = "collect_smart_data ?e ?w3 ''/dev/sdb''"
    let ?w4 = "fst ?c" and ?smart = "snd ?c"
    have "snd ?u = Inr ()" by code_simp
    then have u: "?u = (?w3, Inr ())" by (metis prod.collapse)
    have en: "?enabled" by code_simp
    have c: "?c = (?w4, ?smart)" by simp
    have tr: "truthy ?smart" by code_simp
    have pa: "parse_smart_attributes ?e ?smart ''/dev/sdb'' = Inr example_readings" by code_simp
    have ne: "example_readings \<noteq> []" by (simp add: example_readings_def)
    note r = conjI[OF u conjI[OF en conjI[OF c conjI[OF tr conjI[OF pa ne]]]]]
    have f: "sqlite_fails ?e (tick ?w4 + 1)" by code_simp
    from t[THEN conjunct2, THEN conjunct1, THEN mp, OF r, THEN conjunct1, THEN mp, OF f,
        THEN conjunct1]
    show ?thesis by simp
  qed
  have alerts: "snd (process_device (rejecting_env 10) fresh_world ''/dev/sdb'') = Inl SqliteError"
  proof -
    let ?e = "rejecting_env 10"
    let ?i = "get_device_info ?e (logger fresh_world (ProcessingDevice ''/dev/sdb'')) ''/dev/sdb''"
    let ?w1 = "fst ?i" and ?serial = "fst (snd ?i)" and ?mdl = "snd (snd ?i)"
    let ?s = "check_smart_support ?e ?w1 ''/dev/sdb''"
    let ?w2 = "fst ?s" and ?enabled = "snd ?s"
    have info: "?i = (?w1, (?serial, ?mdl))" by simp
    have support: "?s = (?w2, ?enabled)" by simp
    note t = store_failure_is_caught[OF info support, where devs = "[]"]
    let ?u = "update_device_status ?e ?w2 ''/dev/sdb'' ?serial ?mdl True ?enabled"
    let ?w3 = "fst ?u"
    let ?c = "collect_smart_data ?e ?w3 ''/dev/sdb''"
    let ?w4 = "fst ?c" and ?smart = "snd ?c"
    have "snd ?u = Inr ()" by code_simp
    then have u: "?u = (?w3, Inr ())" by (metis prod.collapse)
    have en: "?enabled" by code_simp
    have c: "?c = (?w4, ?smart)" by simp
    have tr: "truthy ?smart" by code_simp
    have pa: "parse_smart_attributes ?e ?smart ''/dev/sdb'' = Inr example_readings" by code_simp
    have ne: "example_readings \<noteq> []" by (simp add: example_readings_def)
    note r = conjI[OF u conjI[OF en conjI[OF c conjI[OF tr conjI[OF pa ne]]]]]
    let ?st = "store_smart_data ?e ?w4 example_readings ?serial ?mdl"
    let ?w5 = "fst ?st"
    have "snd ?st = Inr ()" by code_simp
    then have st: "?st = (?w5, Inr ())" by (metis prod.collapse)
    have numeric: "(\<forall>r \<in> set example_readings. as_int (attribute_id r) \<noteq> None \<and> as_int (threshold r) \<noteq> None
              \<and> as_int (normalized_value r) \<noteq> None \<and> as_int (raw_value r) \<noteq> None)"
      by (simp add: example_readings_def)
    have k: "0 < length (concat (map (\<lambda>r. map (\<lambda>ty. (device r, attribute_name r, ty))
                                (rules_spec (num (attribute_id r)) (num (threshold r))
                                   (num (normalized_value r)) (num (raw_value r)))) example_readings))"
      by (simp add: example_readings_def rules_spec_def num_def)
    have ok: "\<forall>j<0. \<not> sqlite_fails ?e (tick ?w5 + 2 * j + 1)" by simp
    have bad: "sqlite_fails ?e (tick ?w5 + 2 * 0 + 1)" by code_simp
    note a = conjI[OF st conjI[OF numeric conjI[OF k conjI[OF ok bad]]]]
    from t[THEN conjunct2, THEN conjunct1, THEN mp, OF r, THEN conjunct2, THEN mp, OF a]
    obtain w6 where "process_device ?e fresh_world ''/dev/sdb'' = (w6, Inl SqliteError)"
      by blast
    then show ?thesis by simp
  qed
  have rest:
    "smart_data (fst (process_device (rejecting_env 8) fresh_world ''/dev/sdb'')) = []"
    "length (smart_data (fst (process_device (rejecting_env 10) fresh_world ''/dev/sdb''))) = 2"
    "health_alerts (fst (process_device (rejecting_env 10) fresh_world ''/dev/sdb'')) = []"
    "snd (process_device example_env fresh_world ''/dev/sdb'') = Inr ()"
    by code_simp+
  from status readings alerts rest show ?thesis by (intro conjI)
qed

subsection \<open>The trace of a cycle\<close>

lemma smartctl_commands_inject [simp]:
  "smartctl_standby d = smartctl_standby d' \<longleftrightarrow> d = d'"
  "smartctl_attributes d = smartctl_attributes d' \<longleftrightarrow> d = d'"
  "smartctl_info d \<noteq> smartctl_standby d'"
  "smartctl_info d \<noteq> smartctl_attributes d'"
  "smartctl_standby d \<noteq> smartctl_attributes d'"
  "smartctl_attributes d \<noteq> smartctl_standby d'"
  "smartctl_standby d \<noteq> smartctl_info d'"
  "smartctl_attributes d \<noteq> smartctl_info d'"
  by (simp_all add: smartctl_standby_def smartctl_attributes_def smartctl_info_def)




















subsection \<open>A probe that fails\<close>

text \<open>
  When the standby probe raises (a timeout, or any other exception of
  \<open>subprocess.run\<close>), the collector logs it and returns the empty dictionary, and the full
  query is not started.
\<close>

lemma collect_smart_data_probe_raises:
  assumes "subprocess_run e (tick w) (smartctl_standby dev) 10 = Raised ex"
  shows "collect_smart_data e w dev
     = (collect_except
          (w\<lparr>tick := Suc (tick w),
             trace := trace w @ [((smartctl_standby dev, 10), Raised ex)]\<rparr>) dev ex,
        PDict [])"
  using assms by (simp add: collect_smart_data_def run_process_def Let_def)

text \<open>
  C2 on the code: a probe that completes is judged by one test only, whether its output
  contains \<open>STANDBY\<close>; its return code is not read. In the sample run the probe of
  \<open>/dev/sdb\<close> fails with status 1 and an empty output. The collector logs nothing,
  starts the full attribute query, and returns the document, from which the parser makes
  two readings: attribute collection is not skipped.
\<close>

theorem failed_probe_is_followed_by_query:
  "subprocess_run failed_probe_env (tick fresh_world) (smartctl_standby ''/dev/sdb'') 10
     = Completed 1 [] ''Smartctl open device: /dev/sdb failed: Input/output error''
   \<and> trace (fst (collect_smart_data failed_probe_env fresh_world ''/dev/sdb''))
       = [((smartctl_standby ''/dev/sdb'', 10),
           Completed 1 [] ''Smartctl open device: /dev/sdb failed: Input/output error''),
          ((smartctl_attributes ''/dev/sdb'', 60),
           Completed 0 ''{ata_smart_attributes}'' [])]
   \<and> logs (fst (collect_smart_data failed_probe_env fresh_world ''/dev/sdb'')) = []
   \<and> snd (collect_smart_data failed_probe_env fresh_world ''/dev/sdb'') = example_json
   \<and> parse_smart_attributes failed_probe_env example_json ''/dev/sdb'' = Inr example_readings"
  by code_simp

end
